theory Spec2Isabelle
  imports Complex_Main
begin

section \<open>JSON values and the plan document\<close>

text \<open>
  The plan is the dictionary that \<^verbatim>\<open>json.loads\<close> returns. Its values are JSON values:
  \<^verbatim>\<open>None\<close>, booleans, numbers, strings, lists and nested dictionaries. A float is
  carried as a rational, since the program only ever asks whether a number is zero.
  Strings are sequences of code points below 256. A nested dictionary is an association
  list; the plan itself is a map from keys to values, since the program never depends on
  the order of its keys.
\<close>

datatype json =
    JNull
  | JBool bool
  | JInt int
  | JFloat rat
  | JStr string
  | JList "json list"
  | JDict "(string \<times> json) list"

type_synonym plan = "string \<rightharpoonup> json"

datatype error = TypeError

text \<open>\<^verbatim>\<open>plan.get(k)\<close> gives \<^verbatim>\<open>None\<close> for a missing key, \<^verbatim>\<open>plan.get(k, d)\<close> gives \<open>d\<close>.\<close>

definition plan_get :: "plan \<Rightarrow> string \<Rightarrow> json" where
  "plan_get plan k = (case plan k of None \<Rightarrow> JNull | Some v \<Rightarrow> v)"

definition plan_get_or :: "plan \<Rightarrow> string \<Rightarrow> json \<Rightarrow> json" where
  "plan_get_or plan k d = (case plan k of None \<Rightarrow> d | Some v \<Rightarrow> v)"

text \<open>\<^verbatim>\<open>len(v)\<close> raises \<^verbatim>\<open>TypeError\<close> on \<^verbatim>\<open>None\<close>, booleans and numbers.\<close>

fun py_len :: "json \<Rightarrow> error + nat" where
  "py_len (JStr s) = Inr (length s)"
| "py_len (JList xs) = Inr (length xs)"
| "py_len (JDict kvs) = Inr (length (remdups (map fst kvs)))"
| "py_len _ = Inl TypeError"

text \<open>Python's truth value of an object, as \<^verbatim>\<open>not plan.get(k)\<close> tests it.\<close>

fun truthy :: "json \<Rightarrow> bool" where
  "truthy JNull = False"
| "truthy (JBool b) = b"
| "truthy (JInt i) = (i \<noteq> 0)"
| "truthy (JFloat r) = (r \<noteq> 0)"
| "truthy (JStr s) = (s \<noteq> [])"
| "truthy (JList xs) = (xs \<noteq> [])"
| "truthy (JDict kvs) = (kvs \<noteq> [])"

text \<open>\<^verbatim>\<open>str.strip()\<close>: the characters \<^verbatim>\<open>str.isspace\<close> accepts, below 256.\<close>

definition isspace :: "char \<Rightarrow> bool" where
  "isspace c = ((of_char c :: nat) \<in> {9, 10, 11, 12, 13, 28, 29, 30, 31, 32, 133, 160})"

definition strip :: "string \<Rightarrow> string" where
  "strip s = rev (dropWhile isspace (rev (dropWhile isspace s)))"

fun non_empty :: "json \<Rightarrow> bool" where
  "non_empty JNull = False"
| "non_empty (JStr s) = (strip s \<noteq> [])"
| "non_empty (JList xs) = (length xs > 0)"
| "non_empty (JDict kvs) = (length (remdups (map fst kvs)) > 0)"
| "non_empty _ = True"

section \<open>The rubric\<close>

text \<open>
  \<^verbatim>\<open>task_balance_ok\<close>. The ratio is a Python float; it is taken here as the exact
  quotient, which gives the same comparisons with 0.4 and 0.6 for every list that fits in
  memory (the quotient of two lengths is either exactly 2/5 or 3/5, where the rounded
  division returns the literal itself, or further from them than a rounding error).
\<close>

definition task_balance_ok :: "plan \<Rightarrow> error + bool" where
  "task_balance_ok plan =
     (case py_len (plan_get_or plan ''plan_tasks'' (JList [])) of
        Inl err \<Rightarrow> Inl err
      | Inr p \<Rightarrow>
         (case py_len (plan_get_or plan ''execution_tasks'' (JList [])) of
            Inl err \<Rightarrow> Inl err
          | Inr e \<Rightarrow>
             (let total = p + e in
              if total < 4 \<or> p = 0 \<or> e = 0 then Inr False
              else (let ratio = (of_nat p :: rat) / of_nat total
                    in Inr (4 / 10 \<le> ratio \<and> ratio \<le> 6 / 10)))))"

definition axes :: "string list" where
  "axes = [''direction_insights'', ''market_insights'', ''timing_insights'',
           ''differentiation_insights'', ''monetization_insights'',
           ''constraint_insights'', ''risk_signal_insights'', ''evolution_insights'']"

definition insight_axes_covered :: "plan \<Rightarrow> bool" where
  "insight_axes_covered plan = list_all (\<lambda>k. non_empty (plan_get plan k)) axes"

record CheckResult =
  name :: string
  passed :: bool
  detail :: string
  weight :: int
  critical :: bool

definition check :: "string \<Rightarrow> bool \<Rightarrow> string \<Rightarrow> int \<Rightarrow> bool \<Rightarrow> CheckResult" where
  "check n p d w c = \<lparr>name = n, passed = p, detail = d, weight = w, critical = c\<rparr>"

text \<open>The loop at the end of \<^verbatim>\<open>run_qa\<close>, over the accumulators \<open>score\<close> and \<open>critical_failure\<close>.\<close>

fun qa_loop :: "CheckResult list \<Rightarrow> int \<times> bool \<Rightarrow> int \<times> bool" where
  "qa_loop [] acc = acc"
| "qa_loop (c # cs) (score, critical_failure) =
     qa_loop cs (if passed c then score + weight c else score,
                 if critical c \<and> \<not> passed c then True else critical_failure)"

definition qa_checks :: "plan \<Rightarrow> nat \<Rightarrow> nat \<Rightarrow> bool \<Rightarrow> CheckResult list" where
  "qa_checks plan n_options n_references balance =
     [check ''goal_clarity'' (non_empty (plan_get plan ''goal''))
        ''Goal is present and outcome-oriented.'' 10 True,
      check ''measurability''
        (non_empty (plan_get plan ''success_metric'') \<and> non_empty (plan_get plan ''deadline''))
        ''Success metric and deadline are both defined.'' 10 True,
      check ''constraints'' (non_empty (plan_get plan ''constraints''))
        ''Constraints are explicitly listed.'' 8 False,
      check ''assumptions'' (non_empty (plan_get plan ''assumptions''))
        ''Core assumptions are extracted.'' 8 False,
      check ''options_comparison''
        (n_options \<ge> 2 \<and> non_empty (plan_get plan ''selected_option''))
        ''At least two options and one selected option exist.'' 8 False,
      check ''references_coverage'' (n_references \<ge> 3)
        ''Plan includes at least three references (docs, cases, benchmarks).'' 10 False,
      check ''insight_axes_coverage'' (insight_axes_covered plan)
        ''Eight long-horizon insight axes are all covered.'' 10 False,
      check ''plan_execution_balance'' balance
        ''Plan/Execution task split is balanced near 50:50 (40-60% range).'' 10 True,
      check ''verification_loop'' (non_empty (plan_get plan ''experiments''))
        ''Validation experiments exist for key assumptions.'' 8 False,
      check ''risk_coverage'' (non_empty (plan_get plan ''risks''))
        ''Top risks include early signals and mitigations.'' 8 False,
      check ''dependencies'' (non_empty (plan_get plan ''dependencies''))
        ''External dependencies/blockers are documented.'' 5 False,
      check ''definition_of_done'' (non_empty (plan_get plan ''definition_of_done''))
        ''Definition of done exists.'' 5 True]"

text \<open>
  \<^verbatim>\<open>run_qa\<close>: the three places where building the list can raise are the \<^verbatim>\<open>len\<close> of
  \<open>options\<close>, the \<^verbatim>\<open>len\<close> of \<open>references\<close> and \<^verbatim>\<open>task_balance_ok\<close>, in that order.
\<close>

definition run_qa :: "plan \<Rightarrow> error + (int \<times> CheckResult list \<times> bool)" where
  "run_qa plan =
     (case py_len (plan_get_or plan ''options'' (JList [])) of
        Inl err \<Rightarrow> Inl err
      | Inr n_options \<Rightarrow>
         (case py_len (plan_get_or plan ''references'' (JList [])) of
            Inl err \<Rightarrow> Inl err
          | Inr n_references \<Rightarrow>
             (case task_balance_ok plan of
                Inl err \<Rightarrow> Inl err
              | Inr balance \<Rightarrow>
                 (let checks = qa_checks plan n_options n_references balance;
                      (score, critical_failure) = qa_loop checks (0, False)
                  in Inr (score, checks, critical_failure)))))"

text \<open>\<^verbatim>\<open>str(n)\<close> for the score printed by \<^verbatim>\<open>print_qa\<close>.\<close>

definition digit_char :: "nat \<Rightarrow> char" where
  "digit_char d = char_of (48 + d)"

fun str_nat :: "nat \<Rightarrow> string" where
  "str_nat n = (if n < 10 then [digit_char n] else str_nat (n div 10) @ [digit_char (n mod 10)])"

declare str_nat.simps [simp del]

definition str_int :: "int \<Rightarrow> string" where
  "str_int i = (if i < 0 then CHR ''-'' # str_nat (nat (- i)) else str_nat (nat i))"

definition check_line :: "CheckResult \<Rightarrow> string" where
  "check_line c =
     ''- '' @ (if passed c then ''PASS'' else ''FAIL'') @ '' '' @ name c
       @ (if critical c then '' [CRITICAL]'' else []) @ '': '' @ detail c"

definition result_line :: "int \<Rightarrow> bool \<Rightarrow> string" where
  "result_line score critical_failure =
     (if critical_failure then ''Result: CRITICAL_FAILURE''
      else if score < 70 then ''Result: NEEDS_REPLAN (score < 70)''
      else ''Result: PASS'')"

text \<open>\<^verbatim>\<open>print_qa\<close>: the lines written to standard output, in order.\<close>

definition print_qa :: "int \<Rightarrow> CheckResult list \<Rightarrow> bool \<Rightarrow> string list" where
  "print_qa score checks critical_failure =
     [''QA score: '' @ str_int score @ ''/100'']
       @ map check_line checks
       @ [result_line score critical_failure]"

section \<open>Repair\<close>

definition failed_names :: "CheckResult list \<Rightarrow> string list" where
  "failed_names checks = map name (filter (\<lambda>c. \<not> passed c) checks)"

definition and_then :: "error + 'a \<Rightarrow> ('a \<Rightarrow> error + 'b) \<Rightarrow> error + 'b" where
  "and_then r f = (case r of Inl err \<Rightarrow> Inl err | Inr x \<Rightarrow> f x)"

text \<open>
  The recurring statement
  \<^verbatim>\<open>if "<chk>" in failed and not plan.get("<key>"): plan["<key>"] = v\<close>.
\<close>

definition fill_if_falsy :: "string list \<Rightarrow> string \<Rightarrow> string \<Rightarrow> json \<Rightarrow> plan \<Rightarrow> plan" where
  "fill_if_falsy failed chk key v plan =
     (if chk \<in> set failed \<and> \<not> truthy (plan_get plan key) then plan(key \<mapsto> v) else plan)"

definition generic_options :: json where
  "generic_options = JList
     [JStr ''Conservative option: narrow scope and faster delivery.'',
      JStr ''Balanced option: medium scope with staged rollout.'',
      JStr ''Aggressive option: broad scope with higher risk.'']"

definition generic_selected :: json where
  "generic_selected = JStr ''Balanced option: medium scope with staged rollout.''"

definition generic_references :: json where
  "generic_references = JList
     [JStr ''Spec-driven planning examples'',
      JStr ''Agent workflow docs'',
      JStr ''Postmortem of failed planning cases'']"

definition generic_insights :: json where
  "generic_insights = JList
     [JStr ''Treat planning as first-class work, not overhead.'',
      JStr ''Require evidence links for every critical decision.'',
      JStr ''Replan from execution signals, not intuition.'']"

definition generic_plan_tasks :: json where
  "generic_plan_tasks = JList
     [JStr ''Collect references and extract constraints.'',
      JStr ''Generate and compare three strategy options.'']"

definition generic_execution_tasks :: json where
  "generic_execution_tasks = JList
     [JStr ''Implement minimal CLI flow for plan/qa/replan.'',
      JStr ''Run pilot and collect evidence against success metric.'']"

definition generic_risks :: json where
  "generic_risks = JList
     [JDict [(''risk'', JStr ''Scope drift''),
             (''signal'', JStr ''New requirements added mid-cycle''),
             (''mitigation'', JStr ''Freeze sprint scope and defer extras'')]]"

definition replan_options :: "string list \<Rightarrow> plan \<Rightarrow> error + plan" where
  "replan_options failed plan =
     (if ''options_comparison'' \<in> set failed then
        (case py_len (plan_get_or plan ''options'' (JList [])) of
           Inl err \<Rightarrow> Inl err
         | Inr n \<Rightarrow>
            if n < 2 then
              (let plan = plan(''options'' \<mapsto> generic_options)
               in Inr (if \<not> truthy (plan_get plan ''selected_option'')
                       then plan(''selected_option'' \<mapsto> generic_selected) else plan))
            else Inr plan)
      else Inr plan)"

definition replan_references :: "string list \<Rightarrow> plan \<Rightarrow> error + plan" where
  "replan_references failed plan =
     (if ''references_coverage'' \<in> set failed then
        (case py_len (plan_get_or plan ''references'' (JList [])) of
           Inl err \<Rightarrow> Inl err
         | Inr n \<Rightarrow> Inr (if n < 3 then plan(''references'' \<mapsto> generic_references) else plan))
      else Inr plan)"

definition replan_insights :: "string list \<Rightarrow> plan \<Rightarrow> error + plan" where
  "replan_insights failed plan =
     (if ''insight_axes_coverage'' \<in> set failed then
        (case py_len (plan_get_or plan ''insights'' (JList [])) of
           Inl err \<Rightarrow> Inl err
         | Inr n \<Rightarrow> Inr (if n < 3 then plan(''insights'' \<mapsto> generic_insights) else plan))
      else Inr plan)"

definition replan_axes :: "string list \<Rightarrow> plan \<Rightarrow> plan" where
  "replan_axes failed plan =
     (let chk = ''insight_axes_coverage'';
          plan = fill_if_falsy failed chk ''direction_insights''
            (JList [JStr ''State why this initiative matters now and what outcome it must create.'']) plan;
          plan = fill_if_falsy failed chk ''market_insights''
            (JList [JStr ''Identify the highest-pain user segment and current alternatives.'']) plan;
          plan = fill_if_falsy failed chk ''timing_insights''
            (JList [JStr ''Define why this timing is favorable now and what delay would cost.'']) plan;
          plan = fill_if_falsy failed chk ''differentiation_insights''
            (JList [JStr ''Describe one clear strategic difference versus existing options.'']) plan;
          plan = fill_if_falsy failed chk ''monetization_insights''
            (JList [JStr ''Link user value to a concrete monetization path.'']) plan;
          plan = fill_if_falsy failed chk ''constraint_insights''
            (JList [JStr ''List execution constraints and the intended workaround strategy.'']) plan;
          plan = fill_if_falsy failed chk ''risk_signal_insights''
            (JList [JStr ''Define one early failure signal and the immediate response.'']) plan;
          plan = fill_if_falsy failed chk ''evolution_insights''
            (JList [JStr ''Define how the plan will be revised on a weekly or monthly cadence.'']) plan
      in plan)"

definition replan_balance :: "string list \<Rightarrow> plan \<Rightarrow> error + plan" where
  "replan_balance failed plan =
     (if ''plan_execution_balance'' \<in> set failed then
        (case py_len (plan_get_or plan ''plan_tasks'' (JList [])) of
           Inl err \<Rightarrow> Inl err
         | Inr p \<Rightarrow>
            (let plan = (if p = 0 then plan(''plan_tasks'' \<mapsto> generic_plan_tasks) else plan)
             in case py_len (plan_get_or plan ''execution_tasks'' (JList [])) of
                  Inl err \<Rightarrow> Inl err
                | Inr e \<Rightarrow>
                   Inr (if e = 0 then plan(''execution_tasks'' \<mapsto> generic_execution_tasks)
                        else plan)))
      else Inr plan)"

definition replan_rest :: "string list \<Rightarrow> plan \<Rightarrow> plan" where
  "replan_rest failed plan =
     (let plan = fill_if_falsy failed ''verification_loop'' ''experiments''
            (JList [JStr ''Run one pilot iteration and compare against success metric.'']) plan;
          plan = fill_if_falsy failed ''risk_coverage'' ''risks'' generic_risks plan;
          plan = fill_if_falsy failed ''dependencies'' ''dependencies''
            (JList [JStr ''Agent runtime support (Codex/Claude Code)'']) plan;
          plan = fill_if_falsy failed ''definition_of_done'' ''definition_of_done''
            (JList [JStr ''All core commands work and QA >= 70.'']) plan
      in plan)"

text \<open>
  \<^verbatim>\<open>auto_replan_stub\<close>: the statements of the source in their order, the plan passed
  from each to the next.
\<close>

definition auto_replan_stub :: "plan \<Rightarrow> CheckResult list \<Rightarrow> error + plan" where
  "auto_replan_stub plan checks =
     (let failed = failed_names checks;
          plan = fill_if_falsy failed ''constraints'' ''constraints''
            (JList [JStr ''Define practical limits for time, budget, and staffing.'']) plan;
          plan = fill_if_falsy failed ''assumptions'' ''assumptions''
            (JList [JStr ''Key assumptions need explicit validation.'']) plan
      in and_then (replan_options failed plan) (\<lambda>plan.
         and_then (replan_references failed plan) (\<lambda>plan.
         and_then (replan_insights failed plan) (\<lambda>plan.
         and_then (replan_balance failed (replan_axes failed plan)) (\<lambda>plan.
         Inr (replan_rest failed plan))))))"

section \<open>Persistence and the commands\<close>

text \<open>\<^verbatim>\<open>save_plan\<close> stamps the plan; \<open>now\<close> is what \<^verbatim>\<open>now_iso()\<close> returns at that moment.\<close>

definition save_plan :: "string \<Rightarrow> plan \<Rightarrow> plan" where
  "save_plan now plan = plan(''updated_at'' \<mapsto> JStr now)"

text \<open>
  The assessment at the end of \<^verbatim>\<open>cmd_plan\<close> (lines 502 to 511): the lines printed and
  the plan in memory, or the exception that ended the command.
\<close>

definition cmd_plan_qa :: "string \<Rightarrow> plan \<Rightarrow> string list \<times> (error + plan)" where
  "cmd_plan_qa now plan =
     (case run_qa plan of
        Inl err \<Rightarrow> ([], Inl err)
      | Inr (score, checks, critical_failure) \<Rightarrow>
         (let out = print_qa score checks critical_failure in
          if \<not> critical_failure \<and> score < 70 then
            (let out = out @ [''Auto replan triggered.''] in
             case auto_replan_stub plan checks of
               Inl err \<Rightarrow> (out, Inl err)
             | Inr plan \<Rightarrow>
                (let plan = save_plan now plan in
                 case run_qa plan of
                   Inl err \<Rightarrow> (out, Inl err)
                 | Inr (score2, checks2, critical_failure2) \<Rightarrow>
                    (out @ [''Post-replan QA:''] @ print_qa score2 checks2 critical_failure2,
                     Inr plan)))
          else (out, Inr plan)))"

text \<open>The assessment at the end of \<^verbatim>\<open>cmd_replan\<close> (lines 546 to 554).\<close>

definition cmd_replan_qa :: "string \<Rightarrow> plan \<Rightarrow> string list \<times> (error + plan)" where
  "cmd_replan_qa now plan =
     (case run_qa plan of
        Inl err \<Rightarrow> ([], Inl err)
      | Inr (score, checks, critical_failure) \<Rightarrow>
         (let out = print_qa score checks critical_failure in
          if \<not> critical_failure \<and> score < 70 then
            (let out = out @ [''Auto replan triggered.''] in
             case auto_replan_stub plan checks of
               Inl err \<Rightarrow> (out, Inl err)
             | Inr plan \<Rightarrow>
                (let plan = save_plan now plan in
                 case run_qa plan of
                   Inl err \<Rightarrow> (out, Inl err)
                 | Inr (score2, checks2, critical_failure2) \<Rightarrow>
                    (out @ [''Post-replan QA:''] @ print_qa score2 checks2 critical_failure2,
                     Inr plan)))
          else (out, Inr plan)))"

section \<open>Migration\<close>

text \<open>
  Slices \<^verbatim>\<open>v[:n]\<close> and \<^verbatim>\<open>v[n:]\<close> for \<open>n\<close> not negative. A dictionary cannot be sliced
  (\<^verbatim>\<open>TypeError\<close> up to Python 3.11, \<^verbatim>\<open>KeyError\<close> from 3.12 on; one error value stands
  for both).
\<close>

fun py_slice_to :: "json \<Rightarrow> nat \<Rightarrow> error + json" where
  "py_slice_to (JStr s) n = Inr (JStr (take n s))"
| "py_slice_to (JList xs) n = Inr (JList (take n xs))"
| "py_slice_to _ n = Inl TypeError"

fun py_slice_from :: "json \<Rightarrow> nat \<Rightarrow> error + json" where
  "py_slice_from (JStr s) n = Inr (JStr (drop n s))"
| "py_slice_from (JList xs) n = Inr (JList (drop n xs))"
| "py_slice_from _ n = Inl TypeError"

definition has_key :: "plan \<Rightarrow> string \<Rightarrow> bool" where
  "has_key plan k = (plan k \<noteq> None)"

definition setdefault :: "plan \<Rightarrow> string \<Rightarrow> json \<Rightarrow> plan" where
  "setdefault plan k d = (if has_key plan k then plan else plan(k \<mapsto> d))"

definition defaults :: "string \<Rightarrow> (string \<times> json) list" where
  "defaults now =
     [(''version'', JStr ''0.3.0''),
      (''updated_at'', JStr now),
      (''goal'', JStr []),
      (''success_metric'', JStr []),
      (''deadline'', JStr []),
      (''constraints'', JList []),
      (''assumptions'', JList []),
      (''options'', JList []),
      (''selected_option'', JStr []),
      (''plan_tasks'', JList []),
      (''execution_tasks'', JList []),
      (''dependencies'', JList []),
      (''experiments'', JList []),
      (''risks'', JList []),
      (''references'', JList []),
      (''insights'', JList []),
      (''direction_insights'', JList []),
      (''market_insights'', JList []),
      (''timing_insights'', JList []),
      (''differentiation_insights'', JList []),
      (''monetization_insights'', JList []),
      (''constraint_insights'', JList []),
      (''risk_signal_insights'', JList []),
      (''evolution_insights'', JList []),
      (''definition_of_done'', JList []),
      (''evidence'', JList [])]"

text \<open>The first statement of \<^verbatim>\<open>migrate_plan\<close>: the split of a legacy \<open>tasks\<close> value.\<close>

definition split_tasks :: "plan \<Rightarrow> error + plan" where
  "split_tasks plan =
     (if has_key plan ''tasks''
         \<and> (\<not> has_key plan ''plan_tasks'' \<and> \<not> has_key plan ''execution_tasks'') then
        (let tasks = plan_get_or plan ''tasks'' (JList []) in
         case py_len tasks of
           Inl err \<Rightarrow> Inl err
         | Inr n \<Rightarrow>
            (let split = n div 2 in
             case py_slice_to tasks split of
               Inl err \<Rightarrow> Inl err
             | Inr first_half \<Rightarrow>
                (case py_slice_from tasks split of
                   Inl err \<Rightarrow> Inl err
                 | Inr second_half \<Rightarrow>
                    Inr (plan(''plan_tasks'' \<mapsto> first_half,
                              ''execution_tasks'' \<mapsto> second_half)))))
      else Inr plan)"

definition migrate_plan :: "string \<Rightarrow> plan \<Rightarrow> error + plan" where
  "migrate_plan now plan =
     and_then (split_tasks plan) (\<lambda>plan.
       (let plan = plan(''tasks'' := None);
            plan = fold (\<lambda>(key, default) plan. setdefault plan key default) (defaults now) plan
        in Inr (plan(''version'' \<mapsto> JStr ''0.3.0''))))"


section \<open>Example documents\<close>

definition ex_blank_goal :: plan where
  "ex_blank_goal =
     [''goal'' \<mapsto> JStr ''  '',
      ''success_metric'' \<mapsto> JStr ''ship'',
      ''deadline'' \<mapsto> JStr ''2026-01-01'',
      ''constraints'' \<mapsto> JList [JStr ''c''],
      ''assumptions'' \<mapsto> JList [JStr ''a''],
      ''options'' \<mapsto> JList [JStr ''o1'', JStr ''o2''],
      ''selected_option'' \<mapsto> JStr ''o1'',
      ''plan_tasks'' \<mapsto> JList [JStr ''p1'', JStr ''p2''],
      ''execution_tasks'' \<mapsto> JList [JStr ''e1'', JStr ''e2'', JStr ''e3''],
      ''dependencies'' \<mapsto> JList [JStr ''d''],
      ''experiments'' \<mapsto> JList [JStr ''x''],
      ''risks'' \<mapsto> JList [JDict [(''risk'', JStr ''r'')]],
      ''references'' \<mapsto> JList [JStr ''r1'', JStr ''r2'', JStr ''r3''],
      ''direction_insights'' \<mapsto> JList [JStr ''i''],
      ''market_insights'' \<mapsto> JList [JStr ''i''],
      ''timing_insights'' \<mapsto> JList [JStr ''i''],
      ''differentiation_insights'' \<mapsto> JList [JStr ''i''],
      ''monetization_insights'' \<mapsto> JList [JStr ''i''],
      ''constraint_insights'' \<mapsto> JList [JStr ''i''],
      ''risk_signal_insights'' \<mapsto> JList [JStr ''i''],
      ''evolution_insights'' \<mapsto> JList [JStr ''i''],
      ''definition_of_done'' \<mapsto> JList [JStr ''done'']]"

definition ex_scenario :: plan where
  "ex_scenario =
     [''goal'' \<mapsto> JStr ''Ship the demo'',
      ''success_metric'' \<mapsto> JStr ''One public demo'',
      ''deadline'' \<mapsto> JStr ''2026-01-01'',
      ''plan_tasks'' \<mapsto> JList [JStr ''p1'', JStr ''p2''],
      ''execution_tasks'' \<mapsto> JList [JStr ''e1'', JStr ''e2'', JStr ''e3''],
      ''definition_of_done'' \<mapsto> JList [JStr ''done'']]"

definition ex_unbalanced :: plan where
  "ex_unbalanced =
     [''plan_tasks'' \<mapsto> JList [JStr ''p1''],
      ''execution_tasks'' \<mapsto> JList [JStr ''e1'', JStr ''e2'', JStr ''e3'', JStr ''e4'']]"

text \<open>The verdict of the check called \<open>n\<close> in a verdict list.\<close>

definition verdict :: "string \<Rightarrow> CheckResult list \<Rightarrow> bool option" where
  "verdict n checks = map_option passed (find (\<lambda>c. name c = n) checks)"

definition ex_one_option :: plan where
  "ex_one_option =
     [''goal'' \<mapsto> JStr ''Ship the demo'',
      ''success_metric'' \<mapsto> JStr ''One public demo'',
      ''deadline'' \<mapsto> JStr ''2026-01-01'',
      ''options'' \<mapsto> JList [JStr ''Only option''],
      ''selected_option'' \<mapsto> JStr ''Only option'',
      ''plan_tasks'' \<mapsto> JList [JStr ''p1'', JStr ''p2''],
      ''execution_tasks'' \<mapsto> JList [JStr ''e1'', JStr ''e2'', JStr ''e3''],
      ''definition_of_done'' \<mapsto> JList [JStr ''done'']]"

definition ex_unselected :: plan where
  "ex_unselected =
     [''goal'' \<mapsto> JStr ''Ship the demo'',
      ''success_metric'' \<mapsto> JStr ''One public demo'',
      ''deadline'' \<mapsto> JStr ''2026-01-01'',
      ''options'' \<mapsto> JList [JStr ''Option A'', JStr ''Option B''],
      ''selected_option'' \<mapsto> JStr [],
      ''plan_tasks'' \<mapsto> JList [JStr ''p1'', JStr ''p2''],
      ''execution_tasks'' \<mapsto> JList [JStr ''e1'', JStr ''e2'', JStr ''e3''],
      ''definition_of_done'' \<mapsto> JList [JStr ''done'']]"

definition ex_constraints :: plan where
  "ex_constraints =
     [''goal'' \<mapsto> JStr ''Ship the demo'',
      ''constraints'' \<mapsto> JList [JStr ''Budget stays below 100'']]"

definition ex_constraints_failed :: "CheckResult list" where
  "ex_constraints_failed =
     [check ''constraints'' False ''Constraints are explicitly listed.'' 8 False]"

definition ex_legacy :: plan where
  "ex_legacy =
     [''version'' \<mapsto> JStr ''0.2.0'',
      ''goal'' \<mapsto> JStr ''Ship the demo'',
      ''tasks'' \<mapsto> JList [JStr ''t1'', JStr ''t2'', JStr ''t3'']]"

definition ex_versioned :: plan where
  "ex_versioned =
     [''version'' \<mapsto> JStr ''0.2.0'',
      ''tasks'' \<mapsto> JList [JStr ''t1''],
      ''plan_tasks'' \<mapsto> JList [JStr ''p1'']]"


section \<open>Vocabulary for the statements about repair\<close>

text \<open>
  The fields whose \<^verbatim>\<open>len\<close> the assessment or the repair takes, and the fields that the
  repair fills when their value is false in Python's sense (for a list: when it is empty).
\<close>

definition len_fields :: "string list" where
  "len_fields = [''options'', ''references'', ''insights'', ''plan_tasks'', ''execution_tasks'']"

definition empty_guarded :: "string list" where
  "empty_guarded =
     [''constraints'', ''assumptions'', ''selected_option'',
      ''direction_insights'', ''market_insights'', ''timing_insights'',
      ''differentiation_insights'', ''monetization_insights'',
      ''constraint_insights'', ''risk_signal_insights'', ''evolution_insights'',
      ''experiments'', ''risks'', ''dependencies'', ''definition_of_done'']"

definition has_len :: "plan \<Rightarrow> string \<Rightarrow> bool" where
  "has_len plan k =
     (case py_len (plan_get_or plan k (JList [])) of Inl err \<Rightarrow> False | Inr n \<Rightarrow> True)"

definition len_below :: "plan \<Rightarrow> string \<Rightarrow> nat \<Rightarrow> bool" where
  "len_below plan k n =
     (case py_len (plan_get_or plan k (JList [])) of Inl err \<Rightarrow> False | Inr m \<Rightarrow> m < n)"

text \<open>
  Field \<open>k\<close> is below the bar at which the repair leaves it alone: false in Python's sense
  for the fields of \<open>empty_guarded\<close>, shorter than 2 for \<open>options\<close>, shorter than 3 for
  \<open>references\<close> and \<open>insights\<close>, of length 0 for the two task lists. No other field is
  ever below the bar.
\<close>

definition below_bar :: "plan \<Rightarrow> string \<Rightarrow> bool" where
  "below_bar plan k =
     (if k \<in> set empty_guarded then \<not> truthy (plan_get plan k)
      else if k = ''options'' then len_below plan k 2
      else if k = ''references'' \<or> k = ''insights'' then len_below plan k 3
      else if k = ''plan_tasks'' \<or> k = ''execution_tasks'' then len_below plan k 1
      else False)"

text \<open>A placeholder: a string or a list that is not empty.\<close>

fun filler :: "json \<Rightarrow> bool" where
  "filler (JStr s) = (s \<noteq> [])"
| "filler (JList xs) = (xs \<noteq> [])"
| "filler _ = False"

text \<open>
  From \<open>p\<close> to \<open>q\<close> every field is either untouched, or it was below the bar, no longer
  is, and now holds a placeholder.
\<close>

definition fills :: "plan \<Rightarrow> plan \<Rightarrow> bool" where
  "fills p q =
     (\<forall>k. q k = p k
        \<or> (below_bar p k \<and> \<not> below_bar q k \<and> (\<exists>v. q k = Some v \<and> filler v)))"

definition sized :: "plan \<Rightarrow> bool" where
  "sized plan = list_all (has_len plan) len_fields"

text \<open>
  A well-formed plan document: every scalar field that is present holds a string, every
  list field that is present holds a list. Any field may be missing, empty or populated.
\<close>

definition string_fields :: "string list" where
  "string_fields =
     [''goal'', ''success_metric'', ''deadline'', ''selected_option'', ''version'',
      ''updated_at'']"

definition list_fields :: "string list" where
  "list_fields =
     [''constraints'', ''assumptions'', ''options'', ''plan_tasks'', ''execution_tasks'',
      ''dependencies'', ''experiments'', ''references'', ''insights'',
      ''definition_of_done'', ''evidence'',
      ''direction_insights'', ''market_insights'', ''timing_insights'',
      ''differentiation_insights'', ''monetization_insights'',
      ''constraint_insights'', ''risk_signal_insights'', ''evolution_insights'',
      ''risks'']"

fun is_str :: "json \<Rightarrow> bool" where
  "is_str (JStr s) = True"
| "is_str _ = False"

fun is_list :: "json \<Rightarrow> bool" where
  "is_list (JList xs) = True"
| "is_list _ = False"

definition well_formed :: "plan \<Rightarrow> bool" where
  "well_formed plan =
     (list_all (\<lambda>k. case plan k of None \<Rightarrow> True | Some v \<Rightarrow> is_str v) string_fields
      \<and> list_all (\<lambda>k. case plan k of None \<Rightarrow> True | Some v \<Rightarrow> is_list v) list_fields)"

text \<open>How often a line occurs in the output, and the lines that close an assessment.\<close>

definition occurrences :: "string \<Rightarrow> string list \<Rightarrow> nat" where
  "occurrences l out = length (filter (\<lambda>x. x = l) out)"

definition is_result_line :: "string \<Rightarrow> bool" where
  "is_result_line l = (take 8 l = ''Result: '')"


section \<open>Assessment: score, critical failures, balance\<close>

lemmas qa_eval = run_qa_def task_balance_ok_def plan_get_def plan_get_or_def qa_checks_def
  check_def insight_axes_covered_def axes_def strip_def isspace_def Let_def

lemma qa_loop_score: "fst (qa_loop cs (s, cf)) = s + sum_list (map weight (filter passed cs))"
  by (induction cs arbitrary: s cf) auto

lemma qa_loop_critical:
  "snd (qa_loop cs (s, cf)) = (cf \<or> (\<exists>c\<in>set cs. critical c \<and> \<not> passed c))"
  by (induction cs arbitrary: s cf) auto

lemma run_qa_InrD:
  assumes "run_qa plan = Inr (score, checks, cf)"
  obtains n_options n_references balance where
    "py_len (plan_get_or plan ''options'' (JList [])) = Inr n_options"
    "py_len (plan_get_or plan ''references'' (JList [])) = Inr n_references"
    "task_balance_ok plan = Inr balance"
    "checks = qa_checks plan n_options n_references balance"
    "qa_loop checks (0, False) = (score, cf)"
  using assms unfolding run_qa_def
  by (auto simp: Let_def split: sum.splits prod.splits)

lemma qa_checks_weights:
  "map weight (qa_checks plan n m b) = [10, 10, 8, 8, 8, 10, 10, 10, 8, 8, 5, 5]"
  by (simp add: qa_checks_def check_def)

lemma qa_checks_critical:
  "map critical (qa_checks plan n m b) =
     [True, True, False, False, False, False, False, True, False, False, False, True]"
  by (simp add: qa_checks_def check_def)

lemma filter_weight_bounds:
  assumes "\<forall>c\<in>set cs. 0 \<le> weight c"
  shows "0 \<le> sum_list (map weight (filter P cs))"
    and "sum_list (map weight (filter P cs)) \<le> sum_list (map weight cs)"
  using assms by (induction cs) auto

lemma qa_checks_nonneg: "\<forall>c\<in>set (qa_checks plan n m b). 0 \<le> weight c"
  by (simp add: qa_checks_def check_def)

text \<open>
  Claim C2 (score). Whenever the assessment returns, the score is the sum of the weights of
  exactly the checks whose \<open>passed\<close> flag is true, it lies between 0 and 100, and the twelve
  weights are 10, 10, 8, 8, 8, 10, 10, 10, 8, 8, 5, 5, which sum to 100.
\<close>
theorem score_is_sum_of_passed_weights:
  assumes "run_qa plan = Inr (score, checks, critical_failure)"
  shows "score = sum_list (map weight (filter passed checks))
       \<and> 0 \<le> score \<and> score \<le> 100
       \<and> map weight checks = [10, 10, 8, 8, 8, 10, 10, 10, 8, 8, 5, 5]
       \<and> sum_list (map weight checks) = 100"
proof -
  from assms obtain n m b where
    checks: "checks = qa_checks plan n m b" and
    loop: "qa_loop checks (0, False) = (score, critical_failure)"
    by (rule run_qa_InrD)
  have score: "score = sum_list (map weight (filter passed checks))"
    using qa_loop_score [of checks 0 False] loop by simp
  have weights: "map weight checks = [10, 10, 8, 8, 8, 10, 10, 10, 8, 8, 5, 5]"
    by (simp add: checks qa_checks_weights)
  then have total: "sum_list (map weight checks) = 100"
    by simp
  have nonneg: "\<forall>c\<in>set checks. 0 \<le> weight c"
    by (simp add: checks qa_checks_nonneg)
  from filter_weight_bounds [OF nonneg, of passed] score total
  have "0 \<le> score" "score \<le> 100" by simp_all
  with score weights total show ?thesis by simp
qed

text \<open>
  The document with goal, metric, deadline and definition of done set, two plan tasks and
  three execution tasks, everything else missing: score 35.
\<close>
theorem score_is_sum_of_passed_weights_witness:
  "run_qa ex_scenario = Inr (35, qa_checks ex_scenario 0 0 True, False)
   \<and> (35::int) = sum_list (map weight (filter passed (qa_checks ex_scenario 0 0 True)))
   \<and> (0::int) \<le> 35 \<and> (35::int) \<le> 100
   \<and> map weight (qa_checks ex_scenario 0 0 True) = [10, 10, 8, 8, 8, 10, 10, 10, 8, 8, 5, 5]
   \<and> sum_list (map weight (qa_checks ex_scenario 0 0 True)) = 100"
proof -
  have run: "run_qa ex_scenario = Inr (35, qa_checks ex_scenario 0 0 True, False)"
    by (simp add: ex_scenario_def qa_eval)
  from score_is_sum_of_passed_weights [OF run] run show ?thesis by simp
qed

text \<open>
  Claim C1 (critical override). Whenever the assessment returns, \<open>critical_failure\<close> holds
  exactly when some check marked critical has \<open>passed = False\<close>. If the goal is a string that
  is empty after trimming, \<open>critical_failure\<close> is true and the report ends with the line
  \<^verbatim>\<open>Result: CRITICAL_FAILURE\<close>, never \<^verbatim>\<open>Result: PASS\<close>, whatever the score and whatever
  the other checks say.
\<close>
theorem critical_override:
  assumes "run_qa plan = Inr (score, checks, critical_failure)"
  shows "(critical_failure \<longleftrightarrow> (\<exists>c\<in>set checks. critical c \<and> \<not> passed c))
       \<and> (\<forall>g. plan ''goal'' = Some (JStr g) \<and> strip g = [] \<longrightarrow>
            critical_failure
            \<and> last (print_qa score checks critical_failure) = ''Result: CRITICAL_FAILURE''
            \<and> last (print_qa score checks critical_failure) \<noteq> ''Result: PASS'')"
proof -
  from assms obtain n m b where
    checks: "checks = qa_checks plan n m b" and
    loop: "qa_loop checks (0, False) = (score, critical_failure)"
    by (rule run_qa_InrD)
  have iff: "critical_failure \<longleftrightarrow> (\<exists>c\<in>set checks. critical c \<and> \<not> passed c)"
    using qa_loop_critical [of checks 0 False] loop by simp
  have blank: "critical_failure
      \<and> last (print_qa score checks critical_failure) = ''Result: CRITICAL_FAILURE''
      \<and> last (print_qa score checks critical_failure) \<noteq> ''Result: PASS''"
    if g: "plan ''goal'' = Some (JStr g)" "strip g = []" for g
  proof -
    have "\<exists>c\<in>set checks. critical c \<and> \<not> passed c"
      using g by (simp add: checks qa_checks_def check_def plan_get_def)
    with iff have cf: critical_failure by simp
    then show ?thesis by (simp add: print_qa_def result_line_def)
  qed
  from iff blank show ?thesis by blast
qed

text \<open>
  A document whose goal is two spaces and whose other eleven checks all pass: score 90,
  and still a critical failure.
\<close>
theorem critical_override_witness:
  "run_qa ex_blank_goal = Inr (90, qa_checks ex_blank_goal 2 3 True, True)
   \<and> map passed (qa_checks ex_blank_goal 2 3 True)
       = [False, True, True, True, True, True, True, True, True, True, True, True]
   \<and> ex_blank_goal ''goal'' = Some (JStr ''  '') \<and> strip ''  '' = []
   \<and> last (print_qa 90 (qa_checks ex_blank_goal 2 3 True) True) = ''Result: CRITICAL_FAILURE''"
proof -
  have run: "run_qa ex_blank_goal = Inr (90, qa_checks ex_blank_goal 2 3 True, True)"
    by (simp add: ex_blank_goal_def qa_eval)
  have verdicts: "map passed (qa_checks ex_blank_goal 2 3 True)
       = [False, True, True, True, True, True, True, True, True, True, True, True]"
    by (simp add: ex_blank_goal_def qa_eval)
  have goal: "ex_blank_goal ''goal'' = Some (JStr ''  '')" "strip ''  '' = []"
    by (simp_all add: ex_blank_goal_def strip_def isspace_def)
  from critical_override [OF run] goal run verdicts show ?thesis by blast
qed

text \<open>
  Claim C3 (balance rule). With \<open>P\<close> and \<open>E\<close> the lengths of \<open>plan_tasks\<close> and
  \<open>execution_tasks\<close> (0 for a missing key), the \<open>plan_execution_balance\<close> verdict is a
  failure exactly when \<open>P + E < 4\<close>, or \<open>P = 0\<close>, or \<open>E = 0\<close>, or \<open>P / (P + E)\<close> is below 0.4
  or above 0.6. With \<open>P = 2\<close> and \<open>E = 3\<close> the check passes; with \<open>P = 1\<close> and \<open>E = 4\<close> it
  fails.
\<close>
theorem balance_rule:
  assumes "run_qa plan = Inr (score, checks, critical_failure)"
    and "py_len (plan_get_or plan ''plan_tasks'' (JList [])) = Inr P"
    and "py_len (plan_get_or plan ''execution_tasks'' (JList [])) = Inr E"
  shows "\<exists>ok. verdict ''plan_execution_balance'' checks = Some ok
       \<and> (\<not> ok \<longleftrightarrow> P + E < 4 \<or> P = 0 \<or> E = 0
                   \<or> rat_of_nat P / rat_of_nat (P + E) < 4 / 10
                   \<or> 6 / 10 < rat_of_nat P / rat_of_nat (P + E))
       \<and> (P = 2 \<and> E = 3 \<longrightarrow> ok)
       \<and> (P = 1 \<and> E = 4 \<longrightarrow> \<not> ok)"
proof -
  from assms(1) obtain n m b where
    balance: "task_balance_ok plan = Inr b" and
    checks: "checks = qa_checks plan n m b"
    by (rule run_qa_InrD)
  have v: "verdict ''plan_execution_balance'' checks = Some b"
    by (simp add: checks verdict_def qa_checks_def check_def)
  have b: "\<not> b \<longleftrightarrow> P + E < 4 \<or> P = 0 \<or> E = 0
                   \<or> rat_of_nat P / rat_of_nat (P + E) < 4 / 10
                   \<or> 6 / 10 < rat_of_nat P / rat_of_nat (P + E)"
    using balance assms(2,3) by (auto simp: task_balance_ok_def Let_def split: if_splits)
  have "P = 2 \<and> E = 3 \<longrightarrow> b" "P = 1 \<and> E = 4 \<longrightarrow> \<not> b"
    using b by auto
  with v b show ?thesis by blast
qed

text \<open>Two plan tasks against three execution tasks pass; one against four fails.\<close>
theorem balance_rule_witness:
  "run_qa ex_scenario = Inr (35, qa_checks ex_scenario 0 0 True, False)
   \<and> py_len (plan_get_or ex_scenario ''plan_tasks'' (JList [])) = Inr 2
   \<and> py_len (plan_get_or ex_scenario ''execution_tasks'' (JList [])) = Inr 3
   \<and> verdict ''plan_execution_balance'' (qa_checks ex_scenario 0 0 True) = Some True
   \<and> run_qa ex_unbalanced = Inr (0, qa_checks ex_unbalanced 0 0 False, True)
   \<and> py_len (plan_get_or ex_unbalanced ''plan_tasks'' (JList [])) = Inr 1
   \<and> py_len (plan_get_or ex_unbalanced ''execution_tasks'' (JList [])) = Inr 4
   \<and> verdict ''plan_execution_balance'' (qa_checks ex_unbalanced 0 0 False) = Some False"
proof -
  have run: "run_qa ex_scenario = Inr (35, qa_checks ex_scenario 0 0 True, False)"
    by (simp add: ex_scenario_def qa_eval)
  have P: "py_len (plan_get_or ex_scenario ''plan_tasks'' (JList [])) = Inr 2"
    and E: "py_len (plan_get_or ex_scenario ''execution_tasks'' (JList [])) = Inr 3"
    by (simp_all add: ex_scenario_def plan_get_or_def)
  have run': "run_qa ex_unbalanced = Inr (0, qa_checks ex_unbalanced 0 0 False, True)"
    by (simp add: ex_unbalanced_def qa_eval)
  have P': "py_len (plan_get_or ex_unbalanced ''plan_tasks'' (JList [])) = Inr 1"
    and E': "py_len (plan_get_or ex_unbalanced ''execution_tasks'' (JList [])) = Inr 4"
    by (simp_all add: ex_unbalanced_def plan_get_or_def)
  from balance_rule [OF run P E] balance_rule [OF run' P' E'] run P E run' P' E'
  show ?thesis by auto
qed

section \<open>Repair: what a step may change\<close>

lemma plan_get_upd: "plan_get (p(key \<mapsto> v)) k = (if k = key then v else plan_get p k)"
  by (simp add: plan_get_def)

lemma plan_get_or_upd:
  "plan_get_or (p(key \<mapsto> v)) k d = (if k = key then v else plan_get_or p k d)"
  by (simp add: plan_get_or_def)

lemma len_below_upd:
  "len_below (p(key \<mapsto> v)) key n = (case py_len v of Inl err \<Rightarrow> False | Inr m \<Rightarrow> m < n)"
  by (simp add: len_below_def plan_get_or_def)

lemma plan_get_cong: "q k = p k \<Longrightarrow> plan_get q k = plan_get p k"
  by (simp add: plan_get_def)

lemma len_below_cong: "q k = p k \<Longrightarrow> len_below q k n = len_below p k n"
  by (simp add: len_below_def plan_get_or_def)

lemma has_len_cong: "q k = p k \<Longrightarrow> has_len q k = has_len p k"
  by (simp add: has_len_def plan_get_or_def)

lemma below_bar_cong:
  assumes "q k = p k"
  shows "below_bar q k = below_bar p k"
  unfolding below_bar_def plan_get_cong [of q k p, OF assms] len_below_cong [of q k p, OF assms]
  by (rule refl)

lemma filler_has_len: "filler v \<Longrightarrow> \<exists>n. py_len v = Inr n"
  by (cases v) simp_all

lemma filler_truthy: "filler v \<Longrightarrow> truthy v"
  by (cases v) simp_all

lemma below_bar_guarded:
  "key \<in> set empty_guarded \<Longrightarrow> below_bar p key = (\<not> truthy (plan_get p key))"
  by (simp add: below_bar_def)

lemma below_bar_options: "below_bar p ''options'' = len_below p ''options'' 2"
  by (simp add: below_bar_def empty_guarded_def)

lemma below_bar_references: "below_bar p ''references'' = len_below p ''references'' 3"
  by (simp add: below_bar_def empty_guarded_def)

lemma below_bar_insights: "below_bar p ''insights'' = len_below p ''insights'' 3"
  by (simp add: below_bar_def empty_guarded_def)

lemma below_bar_plan_tasks: "below_bar p ''plan_tasks'' = len_below p ''plan_tasks'' 1"
  by (simp add: below_bar_def empty_guarded_def)

lemma below_bar_execution_tasks:
  "below_bar p ''execution_tasks'' = len_below p ''execution_tasks'' 1"
  by (simp add: below_bar_def empty_guarded_def)

lemma fills_refl: "fills p p"
  by (simp add: fills_def)

lemma fills_trans [trans]:
  assumes "fills p q" and "fills q r"
  shows "fills p r"
  unfolding fills_def
proof
  fix k
  let ?new = "\<lambda>a b. below_bar a k \<and> \<not> below_bar b k \<and> (\<exists>v. b k = Some v \<and> filler v)"
  from assms have pq: "q k = p k \<or> ?new p q" and qr: "r k = q k \<or> ?new q r"
    by (simp_all add: fills_def)
  from qr show "r k = p k \<or> ?new p r"
  proof
    assume "r k = q k"
    with pq below_bar_cong [of r k q] show ?thesis by auto
  next
    assume "?new q r"
    with pq below_bar_cong [of q k p] show ?thesis by auto
  qed
qed

lemma fills_upd:
  assumes "below_bar p key" and "\<not> below_bar (p(key \<mapsto> v)) key" and "filler v"
  shows "fills p (p(key \<mapsto> v))"
  using assms by (simp add: fills_def)

lemma fills_fill_if_falsy:
  assumes "key \<in> set empty_guarded" and "filler v"
  shows "fills p (fill_if_falsy failed chk key v p)"
proof (cases "chk \<in> set failed \<and> \<not> truthy (plan_get p key)")
  case True
  then have "fill_if_falsy failed chk key v p = p(key \<mapsto> v)"
    by (simp add: fill_if_falsy_def)
  moreover have "fills p (p(key \<mapsto> v))"
    using True assms filler_truthy [of v]
    by (intro fills_upd) (simp_all add: below_bar_guarded plan_get_upd)
  ultimately show ?thesis by simp
next
  case False
  then have "fill_if_falsy failed chk key v p = p"
    by (auto simp: fill_if_falsy_def)
  then show ?thesis by (simp add: fills_refl)
qed

lemma fills_then_fill:
  assumes "fills p q" and "key \<in> set empty_guarded" and "filler v"
  shows "fills p (fill_if_falsy failed chk key v q)"
  using assms(1) fills_fill_if_falsy [OF assms(2,3)] by (rule fills_trans)

lemma fills_replan_options:
  assumes "replan_options failed p = Inr q"
  shows "fills p q"
proof (cases "''options_comparison'' \<in> set failed \<and> len_below p ''options'' 2")
  case True
  let ?p1 = "p(''options'' \<mapsto> generic_options)"
  have step1: "fills p ?p1"
    using True
    by (intro fills_upd) (simp_all add: below_bar_options len_below_upd generic_options_def)
  have sel: "''selected_option'' \<in> set empty_guarded"
    by (simp add: empty_guarded_def)
  have step2: "fills ?p1 (?p1(''selected_option'' \<mapsto> generic_selected))"
    if "\<not> truthy (plan_get ?p1 ''selected_option'')"
    using that
    by (intro fills_upd) (simp_all add: below_bar_guarded [OF sel] plan_get_upd generic_selected_def)
  from True assms have "q = (if \<not> truthy (plan_get ?p1 ''selected_option'')
       then ?p1(''selected_option'' \<mapsto> generic_selected) else ?p1)"
    by (auto simp: replan_options_def len_below_def Let_def split: sum.splits if_splits)
  with step1 step2 show ?thesis
    by (auto intro: fills_trans)
next
  case False
  with assms have "q = p"
    by (auto simp: replan_options_def len_below_def Let_def split: sum.splits if_splits)
  then show ?thesis by (simp add: fills_refl)
qed

lemma fills_replan_references:
  assumes "replan_references failed p = Inr q"
  shows "fills p q"
proof (cases "''references_coverage'' \<in> set failed \<and> len_below p ''references'' 3")
  case True
  with assms have "q = p(''references'' \<mapsto> generic_references)"
    by (auto simp: replan_references_def len_below_def split: sum.splits if_splits)
  moreover have "fills p (p(''references'' \<mapsto> generic_references))"
    using True
    by (intro fills_upd) (simp_all add: below_bar_references len_below_upd generic_references_def)
  ultimately show ?thesis by simp
next
  case False
  with assms have "q = p"
    by (auto simp: replan_references_def len_below_def split: sum.splits if_splits)
  then show ?thesis by (simp add: fills_refl)
qed

lemma fills_replan_insights:
  assumes "replan_insights failed p = Inr q"
  shows "fills p q"
proof (cases "''insight_axes_coverage'' \<in> set failed \<and> len_below p ''insights'' 3")
  case True
  with assms have "q = p(''insights'' \<mapsto> generic_insights)"
    by (auto simp: replan_insights_def len_below_def split: sum.splits if_splits)
  moreover have "fills p (p(''insights'' \<mapsto> generic_insights))"
    using True
    by (intro fills_upd) (simp_all add: below_bar_insights len_below_upd generic_insights_def)
  ultimately show ?thesis by simp
next
  case False
  with assms have "q = p"
    by (auto simp: replan_insights_def len_below_def split: sum.splits if_splits)
  then show ?thesis by (simp add: fills_refl)
qed

lemma fills_replan_balance:
  assumes "replan_balance failed p = Inr q"
  shows "fills p q"
proof (cases "''plan_execution_balance'' \<in> set failed")
  case True
  let ?p1 = "if len_below p ''plan_tasks'' 1 then p(''plan_tasks'' \<mapsto> generic_plan_tasks) else p"
  have step1: "fills p ?p1"
    by (auto intro!: fills_upd fills_refl
        simp: below_bar_plan_tasks len_below_upd generic_plan_tasks_def)
  have step2: "fills ?p1 (if len_below ?p1 ''execution_tasks'' 1
       then ?p1(''execution_tasks'' \<mapsto> generic_execution_tasks) else ?p1)"
    by (auto intro!: fills_upd fills_refl
        simp: below_bar_execution_tasks len_below_upd generic_execution_tasks_def)
  from True assms have "q = (if len_below ?p1 ''execution_tasks'' 1
       then ?p1(''execution_tasks'' \<mapsto> generic_execution_tasks) else ?p1)"
    by (auto simp: replan_balance_def len_below_def Let_def plan_get_or_upd
        split: sum.splits if_splits)
  with step1 step2 show ?thesis
    by (auto intro: fills_trans)
next
  case False
  with assms have "q = p"
    by (simp add: replan_balance_def)
  then show ?thesis by (simp add: fills_refl)
qed

lemma fills_replan_axes: "fills p (replan_axes failed p)"
  unfolding replan_axes_def Let_def
  by (intro fills_then_fill fills_refl) (simp_all add: empty_guarded_def)

lemma fills_replan_rest: "fills p (replan_rest failed p)"
  unfolding replan_rest_def Let_def
  by (intro fills_then_fill fills_refl) (simp_all add: empty_guarded_def generic_risks_def)

lemma auto_replan_stub_InrD:
  assumes "auto_replan_stub plan checks = Inr plan'"
  obtains p2 p3 p4 p5 p6 where
    "p2 = fill_if_falsy (failed_names checks) ''assumptions'' ''assumptions''
            (JList [JStr ''Key assumptions need explicit validation.''])
            (fill_if_falsy (failed_names checks) ''constraints'' ''constraints''
              (JList [JStr ''Define practical limits for time, budget, and staffing.'']) plan)"
    "replan_options (failed_names checks) p2 = Inr p3"
    "replan_references (failed_names checks) p3 = Inr p4"
    "replan_insights (failed_names checks) p4 = Inr p5"
    "replan_balance (failed_names checks) (replan_axes (failed_names checks) p5) = Inr p6"
    "plan' = replan_rest (failed_names checks) p6"
  using assms unfolding auto_replan_stub_def and_then_def Let_def
  by (auto split: sum.splits)

lemma fills_auto_replan_stub:
  assumes "auto_replan_stub plan checks = Inr plan'"
  shows "fills plan plan'"
proof -
  from assms obtain p2 p3 p4 p5 p6 where
    p2: "p2 = fill_if_falsy (failed_names checks) ''assumptions'' ''assumptions''
            (JList [JStr ''Key assumptions need explicit validation.''])
            (fill_if_falsy (failed_names checks) ''constraints'' ''constraints''
              (JList [JStr ''Define practical limits for time, budget, and staffing.'']) plan)"
    and p3: "replan_options (failed_names checks) p2 = Inr p3"
    and p4: "replan_references (failed_names checks) p3 = Inr p4"
    and p5: "replan_insights (failed_names checks) p4 = Inr p5"
    and p6: "replan_balance (failed_names checks) (replan_axes (failed_names checks) p5) = Inr p6"
    and p7: "plan' = replan_rest (failed_names checks) p6"
    by (rule auto_replan_stub_InrD)
  have "fills plan p2"
    unfolding p2 by (intro fills_then_fill fills_refl) (simp_all add: empty_guarded_def)
  also have "fills p2 p3" using p3 by (rule fills_replan_options)
  also have "fills p3 p4" using p4 by (rule fills_replan_references)
  also have "fills p4 p5" using p5 by (rule fills_replan_insights)
  also have "fills p5 (replan_axes (failed_names checks) p5)" by (rule fills_replan_axes)
  also have "fills (replan_axes (failed_names checks) p5) p6" using p6 by (rule fills_replan_balance)
  also have "fills p6 plan'" unfolding p7 by (rule fills_replan_rest)
  finally show ?thesis .
qed


subsection \<open>Fields a step leaves alone\<close>

lemma fill_if_falsy_other: "k \<noteq> key \<Longrightarrow> fill_if_falsy failed chk key v p k = p k"
  by (simp add: fill_if_falsy_def)

lemma replan_references_other:
  "replan_references failed p = Inr q \<Longrightarrow> k \<noteq> ''references'' \<Longrightarrow> q k = p k"
  by (auto simp: replan_references_def split: sum.splits if_splits)

lemma replan_insights_other:
  "replan_insights failed p = Inr q \<Longrightarrow> k \<noteq> ''insights'' \<Longrightarrow> q k = p k"
  by (auto simp: replan_insights_def split: sum.splits if_splits)

lemma replan_balance_other:
  "replan_balance failed p = Inr q \<Longrightarrow> k \<noteq> ''plan_tasks'' \<Longrightarrow> k \<noteq> ''execution_tasks''
     \<Longrightarrow> q k = p k"
  by (auto simp: replan_balance_def Let_def split: sum.splits if_splits)

lemma replan_axes_other: "k \<notin> set axes \<Longrightarrow> replan_axes failed p k = p k"
  by (simp add: replan_axes_def Let_def axes_def fill_if_falsy_other)

lemma replan_rest_other:
  "k \<notin> {''experiments'', ''risks'', ''dependencies'', ''definition_of_done''}
     \<Longrightarrow> replan_rest failed p k = p k"
  by (simp add: replan_rest_def Let_def fill_if_falsy_other)

lemma replan_options_effect:
  assumes "replan_options failed p = Inr q"
  shows "q ''options'' =
           (if ''options_comparison'' \<in> set failed \<and> len_below p ''options'' 2
            then Some generic_options else p ''options'')"
    and "q ''selected_option'' =
           (if ''options_comparison'' \<in> set failed \<and> len_below p ''options'' 2
               \<and> \<not> truthy (plan_get p ''selected_option'')
            then Some generic_selected else p ''selected_option'')"
  using assms
  by (auto simp: replan_options_def len_below_def Let_def plan_get_upd
      split: sum.splits if_splits)

lemma auto_replan_stub_options:
  assumes "auto_replan_stub plan checks = Inr plan'"
  shows "plan' ''options'' =
           (if ''options_comparison'' \<in> set (failed_names checks) \<and> len_below plan ''options'' 2
            then Some generic_options else plan ''options'')"
    and "plan' ''selected_option'' =
           (if ''options_comparison'' \<in> set (failed_names checks) \<and> len_below plan ''options'' 2
               \<and> \<not> truthy (plan_get plan ''selected_option'')
            then Some generic_selected else plan ''selected_option'')"
proof -
  let ?failed = "failed_names checks"
  from assms obtain p2 p3 p4 p5 p6 where
    p2: "p2 = fill_if_falsy ?failed ''assumptions'' ''assumptions''
            (JList [JStr ''Key assumptions need explicit validation.''])
            (fill_if_falsy ?failed ''constraints'' ''constraints''
              (JList [JStr ''Define practical limits for time, budget, and staffing.'']) plan)"
    and p3: "replan_options ?failed p2 = Inr p3"
    and p4: "replan_references ?failed p3 = Inr p4"
    and p5: "replan_insights ?failed p4 = Inr p5"
    and p6: "replan_balance ?failed (replan_axes ?failed p5) = Inr p6"
    and p7: "plan' = replan_rest ?failed p6"
    by (rule auto_replan_stub_InrD)
  have before: "p2 ''options'' = plan ''options''" "p2 ''selected_option'' = plan ''selected_option''"
    by (simp_all add: p2 fill_if_falsy_other)
  have after: "plan' k = p3 k" if "k = ''options'' \<or> k = ''selected_option''" for k
  proof -
    have "plan' k = p6 k"
      unfolding p7 using that by (intro replan_rest_other) auto
    also have "p6 k = replan_axes ?failed p5 k"
      using p6 that by (intro replan_balance_other) auto
    also have "\<dots> = p5 k"
      using that by (intro replan_axes_other) (auto simp: axes_def)
    also have "p5 k = p4 k"
      using p5 that by (intro replan_insights_other) auto
    also have "p4 k = p3 k"
      using p4 that by (intro replan_references_other) auto
    finally show ?thesis .
  qed
  have len: "len_below p2 ''options'' 2 = len_below plan ''options'' 2"
    using before(1) by (rule len_below_cong)
  have sel: "plan_get p2 ''selected_option'' = plan_get plan ''selected_option''"
    using before(2) by (rule plan_get_cong)
  show "plan' ''options'' =
           (if ''options_comparison'' \<in> set ?failed \<and> len_below plan ''options'' 2
            then Some generic_options else plan ''options'')"
    using replan_options_effect(1) [OF p3] after [of "''options''"] before(1) len by simp
  show "plan' ''selected_option'' =
           (if ''options_comparison'' \<in> set ?failed \<and> len_below plan ''options'' 2
               \<and> \<not> truthy (plan_get plan ''selected_option'')
            then Some generic_selected else plan ''selected_option'')"
    using replan_options_effect(2) [OF p3] after [of "''selected_option''"] before(2) len sel
    by simp
qed



subsection \<open>Totality\<close>

lemma has_len_fills:
  assumes "fills p q" and "has_len p k"
  shows "has_len q k"
proof -
  from assms(1) have "q k = p k \<or> (\<exists>v. q k = Some v \<and> filler v)"
    unfolding fills_def by blast
  then show ?thesis
  proof
    assume "q k = p k"
    then have "has_len q k = has_len p k" by (rule has_len_cong)
    with assms(2) show ?thesis by simp
  next
    assume "\<exists>v. q k = Some v \<and> filler v"
    then obtain v where v: "q k = Some v" "filler v" by blast
    from filler_has_len [OF v(2)] obtain n where "py_len v = Inr n" by blast
    with v(1) show ?thesis
      by (simp add: has_len_def plan_get_or_def)
  qed
qed

lemma sized_fills:
  assumes "fills p q" and "sized p"
  shows "sized q"
proof -
  from assms(2) have "\<forall>k\<in>set len_fields. has_len p k"
    by (simp add: sized_def list_all_iff)
  then have "\<forall>k\<in>set len_fields. has_len q k"
    using has_len_fills [OF assms(1)] by blast
  then show ?thesis
    by (simp add: sized_def list_all_iff)
qed

lemma has_lenD: "has_len p k \<Longrightarrow> \<exists>n. py_len (plan_get_or p k (JList [])) = Inr n"
  by (simp add: has_len_def split: sum.splits)

lemma sizedD:
  assumes "sized p"
  shows "has_len p ''options''" "has_len p ''references''" "has_len p ''insights''"
    "has_len p ''plan_tasks''" "has_len p ''execution_tasks''"
  using assms by (simp_all add: sized_def len_fields_def)

lemma sized_save_plan: "sized p \<Longrightarrow> sized (save_plan now p)"
  by (simp add: sized_def len_fields_def has_len_def save_plan_def plan_get_or_def)

lemma well_formed_sized: "well_formed p \<Longrightarrow> sized p"
proof -
  have len: "has_len p k" if "case p k of None \<Rightarrow> True | Some v \<Rightarrow> is_list v" for k
  proof (cases "p k")
    case None
    then show ?thesis by (simp add: has_len_def plan_get_or_def)
  next
    case (Some v)
    with that show ?thesis by (cases v) (simp_all add: has_len_def plan_get_or_def)
  qed
  assume "well_formed p"
  then have all: "\<forall>k\<in>set list_fields. case p k of None \<Rightarrow> True | Some v \<Rightarrow> is_list v"
    by (simp add: well_formed_def list_all_iff)
  have "k \<in> set list_fields" if "k \<in> set len_fields" for k
    using that by (auto simp: len_fields_def list_fields_def)
  with all len have "\<forall>k\<in>set len_fields. has_len p k"
    by blast
  then show ?thesis
    by (simp add: sized_def list_all_iff)
qed

lemma run_qa_total:
  assumes "sized p"
  shows "\<exists>score checks cf. run_qa p = Inr (score, checks, cf)"
proof -
  from sizedD [OF assms] obtain n m a b where
    "py_len (plan_get_or p ''options'' (JList [])) = Inr n"
    "py_len (plan_get_or p ''references'' (JList [])) = Inr m"
    "py_len (plan_get_or p ''plan_tasks'' (JList [])) = Inr a"
    "py_len (plan_get_or p ''execution_tasks'' (JList [])) = Inr b"
    by (blast dest: has_lenD)
  then show ?thesis
    by (simp add: run_qa_def task_balance_ok_def Let_def split: prod.splits)
qed

lemma replan_options_total:
  assumes "sized p"
  shows "\<exists>q. replan_options failed p = Inr q"
proof -
  from sizedD(1) [OF assms] obtain n where
    "py_len (plan_get_or p ''options'' (JList [])) = Inr n"
    by (blast dest: has_lenD)
  then show ?thesis by (simp add: replan_options_def Let_def)
qed

lemma replan_references_total:
  assumes "sized p"
  shows "\<exists>q. replan_references failed p = Inr q"
proof -
  from sizedD(2) [OF assms] obtain n where
    "py_len (plan_get_or p ''references'' (JList [])) = Inr n"
    by (blast dest: has_lenD)
  then show ?thesis by (simp add: replan_references_def)
qed

lemma replan_insights_total:
  assumes "sized p"
  shows "\<exists>q. replan_insights failed p = Inr q"
proof -
  from sizedD(3) [OF assms] obtain n where
    "py_len (plan_get_or p ''insights'' (JList [])) = Inr n"
    by (blast dest: has_lenD)
  then show ?thesis by (simp add: replan_insights_def)
qed

lemma replan_balance_total:
  assumes "sized p"
  shows "\<exists>q. replan_balance failed p = Inr q"
proof -
  from sizedD(4,5) [OF assms] obtain a b where
    "py_len (plan_get_or p ''plan_tasks'' (JList [])) = Inr a"
    "py_len (plan_get_or p ''execution_tasks'' (JList [])) = Inr b"
    by (blast dest: has_lenD)
  then show ?thesis by (simp add: replan_balance_def Let_def plan_get_or_upd)
qed

lemma auto_replan_stub_total:
  assumes "sized plan"
  shows "\<exists>plan'. auto_replan_stub plan checks = Inr plan'"
proof -
  let ?failed = "failed_names checks"
  define p2 where "p2 = fill_if_falsy ?failed ''assumptions'' ''assumptions''
            (JList [JStr ''Key assumptions need explicit validation.''])
            (fill_if_falsy ?failed ''constraints'' ''constraints''
              (JList [JStr ''Define practical limits for time, budget, and staffing.'']) plan)"
  have "fills plan p2"
    unfolding p2_def by (intro fills_then_fill fills_refl) (simp_all add: empty_guarded_def)
  with assms have s2: "sized p2" by (simp add: sized_fills)
  then obtain p3 where p3: "replan_options ?failed p2 = Inr p3"
    using replan_options_total by blast
  with s2 have s3: "sized p3" by (blast intro: sized_fills fills_replan_options)
  then obtain p4 where p4: "replan_references ?failed p3 = Inr p4"
    using replan_references_total by blast
  with s3 have s4: "sized p4" by (blast intro: sized_fills fills_replan_references)
  then obtain p5 where p5: "replan_insights ?failed p4 = Inr p5"
    using replan_insights_total by blast
  with s4 have "sized p5" by (blast intro: sized_fills fills_replan_insights)
  then have "sized (replan_axes ?failed p5)"
    by (blast intro: sized_fills fills_replan_axes)
  then obtain p6 where p6: "replan_balance ?failed (replan_axes ?failed p5) = Inr p6"
    using replan_balance_total by blast
  from p3 p4 p5 p6 show ?thesis
    by (simp add: auto_replan_stub_def and_then_def Let_def p2_def)
qed

subsection \<open>The claims about repair\<close>

lemma sized_ex_scenario: "sized ex_scenario"
  by (simp add: sized_def len_fields_def has_len_def plan_get_or_def ex_scenario_def)

lemma sized_ex_one_option: "sized ex_one_option"
  by (simp add: sized_def len_fields_def has_len_def plan_get_or_def ex_one_option_def)

lemma sized_ex_unselected: "sized ex_unselected"
  by (simp add: sized_def len_fields_def has_len_def plan_get_or_def ex_unselected_def)

text \<open>
  Claim C9 (totality). For every well-formed plan document, with any of its fields missing,
  empty or populated, the assessment returns a result, the repair returns a document for
  every list of verdicts, and the assessment of the repaired and saved document returns a
  result as well: none of them raises.
\<close>
theorem assessment_and_repair_total:
  assumes "well_formed plan"
  shows "(\<exists>score checks cf. run_qa plan = Inr (score, checks, cf))
       \<and> (\<forall>checks. \<exists>plan'. auto_replan_stub plan checks = Inr plan'
             \<and> (\<forall>now. \<exists>score' checks' cf'.
                   run_qa (save_plan now plan') = Inr (score', checks', cf')))"
proof -
  from assms have sized: "sized plan" by (rule well_formed_sized)
  have repair: "\<exists>plan'. auto_replan_stub plan checks = Inr plan'
      \<and> (\<forall>now. \<exists>score' checks' cf'. run_qa (save_plan now plan') = Inr (score', checks', cf'))"
    for checks
  proof -
    from auto_replan_stub_total [OF sized] obtain plan' where
      plan': "auto_replan_stub plan checks = Inr plan'" by blast
    then have "fills plan plan'" by (rule fills_auto_replan_stub)
    then have "sized plan'" using sized by (rule sized_fills)
    then have "sized (save_plan now plan')" for now by (rule sized_save_plan)
    then have "\<exists>score' checks' cf'. run_qa (save_plan now plan') = Inr (score', checks', cf')"
      for now by (rule run_qa_total)
    with plan' show ?thesis by blast
  qed
  from run_qa_total [OF sized] repair show ?thesis by blast
qed

text \<open>A well-formed document with most of its keys missing.\<close>
theorem assessment_and_repair_total_witness:
  "well_formed ex_scenario
   \<and> (\<exists>score checks cf. run_qa ex_scenario = Inr (score, checks, cf))
   \<and> (\<forall>checks. \<exists>plan'. auto_replan_stub ex_scenario checks = Inr plan'
         \<and> (\<forall>now. \<exists>score' checks' cf'.
               run_qa (save_plan now plan') = Inr (score', checks', cf')))"
proof -
  have wf: "well_formed ex_scenario"
    by (simp add: well_formed_def string_fields_def list_fields_def ex_scenario_def)
  from assessment_and_repair_total [OF wf] wf show ?thesis by blast
qed

text \<open>
  Claim C5, as amended (repair is non-destructive for fields at their bar). For every plan
  document and every list of verdicts, when the repair returns, each field is either
  exactly as before, or it was below its bar at the time of repair (false in Python's
  sense for the fields filled when empty, of length 0 for the two task lists, shorter than
  2 for \<open>options\<close>, shorter than 3 for \<open>references\<close> and \<open>insights\<close>), is no longer below
  it, and holds a non-empty placeholder. No field is removed. In particular a document
  with non-empty \<open>constraints\<close> keeps them unchanged, even if the \<open>constraints\<close> check is
  named as failed.
\<close>
theorem repair_fills_only_below_bar:
  assumes "auto_replan_stub plan checks = Inr plan'"
  shows "(\<forall>k. plan' k = plan k
            \<or> (below_bar plan k \<and> \<not> below_bar plan' k \<and> (\<exists>v. plan' k = Some v \<and> filler v)))
       \<and> (\<forall>k. plan k \<noteq> None \<longrightarrow> plan' k \<noteq> None)
       \<and> (truthy (plan_get plan ''constraints'') \<longrightarrow> plan' ''constraints'' = plan ''constraints'')"
proof -
  from assms have "fills plan plan'" by (rule fills_auto_replan_stub)
  then have each: "plan' k = plan k
      \<or> (below_bar plan k \<and> \<not> below_bar plan' k \<and> (\<exists>v. plan' k = Some v \<and> filler v))" for k
    unfolding fills_def by blast
  have kept: "plan' k \<noteq> None" if "plan k \<noteq> None" for k
    using each [of k] that by auto
  have "''constraints'' \<in> set empty_guarded"
    by (simp add: empty_guarded_def)
  then have "below_bar plan ''constraints'' = (\<not> truthy (plan_get plan ''constraints''))"
    by (rule below_bar_guarded)
  with each [of "''constraints''"]
  have "truthy (plan_get plan ''constraints'') \<longrightarrow> plan' ''constraints'' = plan ''constraints''"
    by auto
  with each kept show ?thesis by blast
qed

text \<open>
  A document with one constraint, repaired with a verdict list that names \<open>constraints\<close>
  as failed: the document comes back unchanged.
\<close>
theorem repair_fills_only_below_bar_witness:
  "auto_replan_stub ex_constraints ex_constraints_failed = Inr ex_constraints
   \<and> ''constraints'' \<in> set (failed_names ex_constraints_failed)
   \<and> truthy (plan_get ex_constraints ''constraints'')
   \<and> ex_constraints ''constraints'' = Some (JList [JStr ''Budget stays below 100''])"
proof -
  have run: "auto_replan_stub ex_constraints ex_constraints_failed = Inr ex_constraints"
    by (simp add: auto_replan_stub_def and_then_def Let_def failed_names_def
        ex_constraints_failed_def check_def fill_if_falsy_def plan_get_def ex_constraints_def
        replan_options_def replan_references_def replan_insights_def replan_axes_def
        replan_balance_def replan_rest_def)
  have named: "''constraints'' \<in> set (failed_names ex_constraints_failed)"
    by (simp add: failed_names_def ex_constraints_failed_def check_def)
  have "truthy (plan_get ex_constraints ''constraints'')"
    by (simp add: plan_get_def ex_constraints_def)
  with repair_fills_only_below_bar [OF run] run named show ?thesis
    by (simp add: ex_constraints_def)
qed

text \<open>
  Claim C5 as stated fails: a document with exactly one option, which fails
  \<open>options_comparison\<close> with score 35, has its \<open>options\<close> field, not empty, overwritten
  by the three generic options.
\<close>
theorem repair_overwrites_short_options:
  "run_qa ex_one_option = Inr (35, qa_checks ex_one_option 1 0 True, False)
   \<and> ex_one_option ''options'' = Some (JList [JStr ''Only option''])
   \<and> \<not> isl (auto_replan_stub ex_one_option (qa_checks ex_one_option 1 0 True))
   \<and> projr (auto_replan_stub ex_one_option (qa_checks ex_one_option 1 0 True)) ''options''
       = Some generic_options
   \<and> generic_options \<noteq> JList [JStr ''Only option'']"
proof -
  let ?checks = "qa_checks ex_one_option 1 0 True"
  have run: "run_qa ex_one_option = Inr (35, ?checks, False)"
    by (simp add: ex_one_option_def qa_eval)
  from auto_replan_stub_total [OF sized_ex_one_option] obtain plan' where
    plan': "auto_replan_stub ex_one_option ?checks = Inr plan'" by blast
  have named: "''options_comparison'' \<in> set (failed_names ?checks)"
    by (simp add: failed_names_def qa_checks_def check_def)
  have short: "len_below ex_one_option ''options'' 2"
    by (simp add: len_below_def plan_get_or_def ex_one_option_def)
  from auto_replan_stub_options(1) [OF plan'] named short
  have "plan' ''options'' = Some generic_options" by simp
  with plan' run show ?thesis
    by (simp add: ex_one_option_def generic_options_def)
qed

text \<open>
  Claim C6, as amended (payload for \<open>options_comparison\<close>). When \<open>options_comparison\<close> is
  named as failed and \<open>options\<close> has fewer than two entries, the repair sets \<open>options\<close> to
  the list of exactly three generic options, and sets \<open>selected_option\<close> to the balanced
  option unless the document already has a non-empty selection, which it keeps.
\<close>
theorem repair_options_payload:
  assumes "auto_replan_stub plan checks = Inr plan'"
    and "''options_comparison'' \<in> set (failed_names checks)"
    and "len_below plan ''options'' 2"
  shows "plan' ''options'' = Some generic_options
       \<and> py_len generic_options = Inr 3
       \<and> plan' ''selected_option'' =
           (if truthy (plan_get plan ''selected_option'') then plan ''selected_option''
            else Some generic_selected)"
  using auto_replan_stub_options [OF assms(1)] assms(2,3)
  by (simp add: generic_options_def)

text \<open>The document without options and without a selection receives both.\<close>
theorem repair_options_payload_witness:
  "\<not> isl (auto_replan_stub ex_scenario (qa_checks ex_scenario 0 0 True))
   \<and> ''options_comparison'' \<in> set (failed_names (qa_checks ex_scenario 0 0 True))
   \<and> len_below ex_scenario ''options'' 2
   \<and> projr (auto_replan_stub ex_scenario (qa_checks ex_scenario 0 0 True)) ''options''
       = Some generic_options
   \<and> projr (auto_replan_stub ex_scenario (qa_checks ex_scenario 0 0 True)) ''selected_option''
       = Some generic_selected"
proof -
  let ?checks = "qa_checks ex_scenario 0 0 True"
  from auto_replan_stub_total [OF sized_ex_scenario] obtain plan' where
    plan': "auto_replan_stub ex_scenario ?checks = Inr plan'" by blast
  have named: "''options_comparison'' \<in> set (failed_names ?checks)"
    by (simp add: failed_names_def qa_checks_def check_def)
  have short: "len_below ex_scenario ''options'' 2"
    by (simp add: len_below_def plan_get_or_def ex_scenario_def)
  have "\<not> truthy (plan_get ex_scenario ''selected_option'')"
    by (simp add: plan_get_def ex_scenario_def)
  with repair_options_payload [OF plan' named short] plan' named short show ?thesis
    by simp
qed

text \<open>
  Claim C6 as stated fails: after the repair of a document that fails
  \<open>options_comparison\<close>, the \<open>options\<close> field has three entries, not two.
\<close>
theorem repair_inserts_three_options:
  "run_qa ex_scenario = Inr (35, qa_checks ex_scenario 0 0 True, False)
   \<and> verdict ''options_comparison'' (qa_checks ex_scenario 0 0 True) = Some False
   \<and> \<not> isl (auto_replan_stub ex_scenario (qa_checks ex_scenario 0 0 True))
   \<and> py_len (plan_get (projr (auto_replan_stub ex_scenario (qa_checks ex_scenario 0 0 True)))
        ''options'') = Inr 3
   \<and> py_len (plan_get (projr (auto_replan_stub ex_scenario (qa_checks ex_scenario 0 0 True)))
        ''options'') \<noteq> Inr 2"
proof -
  let ?checks = "qa_checks ex_scenario 0 0 True"
  have run: "run_qa ex_scenario = Inr (35, ?checks, False)"
    by (simp add: ex_scenario_def qa_eval)
  have failing: "verdict ''options_comparison'' ?checks = Some False"
    by (simp add: verdict_def qa_checks_def check_def)
  from auto_replan_stub_total [OF sized_ex_scenario] obtain plan' where
    plan': "auto_replan_stub ex_scenario ?checks = Inr plan'" by blast
  have named: "''options_comparison'' \<in> set (failed_names ?checks)"
    by (simp add: failed_names_def qa_checks_def check_def)
  have short: "len_below ex_scenario ''options'' 2"
    by (simp add: len_below_def plan_get_or_def ex_scenario_def)
  from auto_replan_stub_options(1) [OF plan'] named short
  have "plan' ''options'' = Some generic_options" by simp
  then have "py_len (plan_get plan' ''options'') = Inr 3"
    by (simp add: plan_get_def generic_options_def)
  with plan' run failing show ?thesis by simp
qed

subsection \<open>A missing selection\<close>

lemma run_qa_verdict_options:
  assumes "run_qa p = Inr (score, checks, cf)"
    and "py_len (plan_get_or p ''options'' (JList [])) = Inr n"
  shows "verdict ''options_comparison'' checks
           = Some (2 \<le> n \<and> non_empty (plan_get p ''selected_option''))"
proof -
  from assms(1) obtain n' m b where
    n': "py_len (plan_get_or p ''options'' (JList [])) = Inr n'" and
    checks: "checks = qa_checks p n' m b"
    by (rule run_qa_InrD)
  from n' assms(2) have "n' = n" by simp
  then show ?thesis
    by (simp add: checks verdict_def qa_checks_def check_def)
qed

lemma save_plan_other: "k \<noteq> ''updated_at'' \<Longrightarrow> save_plan now p k = p k"
  by (simp add: save_plan_def)

text \<open>
  Claim C10 (a missing selection is not repaired). For every plan document whose
  \<open>options\<close> has at least two entries and whose \<open>selected_option\<close> is blank, the check
  \<open>options_comparison\<close> fails, the repair leaves \<open>options\<close> and \<open>selected_option\<close> as they
  are, and \<open>options_comparison\<close> fails again in the assessment of the repaired and saved
  document, which returns whenever the document's list fields have a length.
\<close>
theorem repair_keeps_unselected_options:
  assumes "py_len (plan_get_or plan ''options'' (JList [])) = Inr n" and "2 \<le> n"
    and "\<not> non_empty (plan_get plan ''selected_option'')"
    and "auto_replan_stub plan checks = Inr plan'"
  shows "plan' ''options'' = plan ''options''
       \<and> plan' ''selected_option'' = plan ''selected_option''
       \<and> (\<forall>score cs cf. run_qa plan = Inr (score, cs, cf)
             \<longrightarrow> verdict ''options_comparison'' cs = Some False)
       \<and> (\<forall>now score' cs' cf'. run_qa (save_plan now plan') = Inr (score', cs', cf')
             \<longrightarrow> verdict ''options_comparison'' cs' = Some False)
       \<and> (sized plan \<longrightarrow>
             (\<forall>now. \<exists>score' cs' cf'. run_qa (save_plan now plan') = Inr (score', cs', cf')))"
proof -
  from assms(1,2) have long: "\<not> len_below plan ''options'' 2"
    by (simp add: len_below_def)
  from auto_replan_stub_options [OF assms(4)] long
  have same: "plan' ''options'' = plan ''options''"
    "plan' ''selected_option'' = plan ''selected_option''"
    by simp_all
  have before: "verdict ''options_comparison'' cs = Some False"
    if "run_qa plan = Inr (score, cs, cf)" for score cs cf
    using run_qa_verdict_options [OF that assms(1)] assms(3) by simp
  have after: "verdict ''options_comparison'' cs' = Some False"
    if run: "run_qa (save_plan now plan') = Inr (score', cs', cf')" for now score' cs' cf'
  proof -
    let ?saved = "save_plan now plan'"
    have "?saved ''options'' = plan ''options''"
      "?saved ''selected_option'' = plan ''selected_option''"
      using same by (simp_all add: save_plan_other)
    then have "py_len (plan_get_or ?saved ''options'' (JList [])) = Inr n"
      "\<not> non_empty (plan_get ?saved ''selected_option'')"
      using assms(1,3) by (simp_all add: plan_get_or_def plan_get_def)
    with run_qa_verdict_options [OF run] show ?thesis by simp
  qed
  have returns: "\<exists>score' cs' cf'. run_qa (save_plan now plan') = Inr (score', cs', cf')"
    if "sized plan" for now
  proof -
    from assms(4) have "fills plan plan'" by (rule fills_auto_replan_stub)
    then have "sized plan'" using that by (rule sized_fills)
    then have "sized (save_plan now plan')" by (rule sized_save_plan)
    then show ?thesis by (rule run_qa_total)
  qed
  from same before after returns show ?thesis by blast
qed

text \<open>Two options and an empty selection, before and after the repair.\<close>
theorem repair_keeps_unselected_options_witness:
  "py_len (plan_get_or ex_unselected ''options'' (JList [])) = Inr 2 \<and> (2::nat) \<le> 2
   \<and> \<not> non_empty (plan_get ex_unselected ''selected_option'')
   \<and> run_qa ex_unselected = Inr (35, qa_checks ex_unselected 2 0 True, False)
   \<and> verdict ''options_comparison'' (qa_checks ex_unselected 2 0 True) = Some False
   \<and> \<not> isl (auto_replan_stub ex_unselected (qa_checks ex_unselected 2 0 True))
   \<and> projr (auto_replan_stub ex_unselected (qa_checks ex_unselected 2 0 True)) ''options''
       = Some (JList [JStr ''Option A'', JStr ''Option B''])
   \<and> projr (auto_replan_stub ex_unselected (qa_checks ex_unselected 2 0 True)) ''selected_option''
       = Some (JStr [])"
proof -
  let ?checks = "qa_checks ex_unselected 2 0 True"
  have len: "py_len (plan_get_or ex_unselected ''options'' (JList [])) = Inr 2"
    by (simp add: plan_get_or_def ex_unselected_def)
  have blank: "\<not> non_empty (plan_get ex_unselected ''selected_option'')"
    by (simp add: plan_get_def ex_unselected_def strip_def)
  have run: "run_qa ex_unselected = Inr (35, ?checks, False)"
    by (simp add: ex_unselected_def qa_eval)
  from auto_replan_stub_total [OF sized_ex_unselected] obtain plan' where
    plan': "auto_replan_stub ex_unselected ?checks = Inr plan'" by blast
  have fields: "ex_unselected ''options'' = Some (JList [JStr ''Option A'', JStr ''Option B''])"
    "ex_unselected ''selected_option'' = Some (JStr [])"
    by (simp_all add: ex_unselected_def)
  have "(2::nat) \<le> 2" by simp
  note kept = repair_keeps_unselected_options [OF len this blank plan']
  from kept have "plan' ''options'' = ex_unselected ''options''"
    "plan' ''selected_option'' = ex_unselected ''selected_option''"
    by blast+
  moreover from kept run have "verdict ''options_comparison'' ?checks = Some False"
    by blast
  ultimately have "projr (Inr plan' :: error + plan) ''options'' = ex_unselected ''options''"
    "projr (Inr plan' :: error + plan) ''selected_option'' = ex_unselected ''selected_option''"
    "verdict ''options_comparison'' ?checks = Some False"
    by simp_all
  with run len blank plan' fields show ?thesis
    by simp
qed

subsection \<open>Orchestration\<close>

lemma occurrences_append: "occurrences l (xs @ ys) = occurrences l xs + occurrences l ys"
  by (simp add: occurrences_def)

lemma occurrences_Cons:
  "occurrences l (x # xs) = (if x = l then 1 else 0) + occurrences l xs"
  by (simp add: occurrences_def)

lemma trigger_not_in_print_qa: "occurrences ''Auto replan triggered.'' (print_qa score checks cf) = 0"
proof -
  have "check_line c \<noteq> ''Auto replan triggered.''" for c
    by (simp add: check_line_def)
  then have "filter (\<lambda>x. x = ''Auto replan triggered.'') (map check_line checks) = []"
    by (induction checks) simp_all
  then show ?thesis
    by (simp add: occurrences_def print_qa_def result_line_def)
qed

lemma result_lines_print_qa: "length (filter is_result_line (print_qa score checks cf)) = 1"
proof -
  have "\<not> is_result_line (check_line c)" for c
    by (simp add: check_line_def is_result_line_def)
  then have "filter is_result_line (map check_line checks) = []"
    by (induction checks) simp_all
  then show ?thesis
    by (simp add: print_qa_def result_line_def is_result_line_def)
qed

lemma last_print_qa: "last (print_qa score checks cf) = result_line score cf"
  by (simp add: print_qa_def)

lemma cmd_replan_qa_eq: "cmd_replan_qa now plan = cmd_plan_qa now plan"
  by (simp add: cmd_replan_qa_def cmd_plan_qa_def)

text \<open>
  Claim C4 (orchestration). When the first assessment returns, the repair is called
  exactly when its disposition is \<^verbatim>\<open>NEEDS_REPLAN\<close> (no critical failure and a score below
  70). It is then called once, on the assessed document with the verdicts of the first
  assessment, its result is saved, and one more assessment of the saved document is
  printed; the announcement of the repair occurs once in the output and the output holds
  two result lines. With a critical failure or a score of 70 or more the output is the
  first report alone, the document is unchanged, and the announcement does not occur.
  The ends of \<^verbatim>\<open>cmd_plan\<close> and \<^verbatim>\<open>cmd_replan\<close> behave alike.
\<close>
theorem repair_once_iff_needs_replan:
  assumes "run_qa plan = Inr (score, checks, cf)" and "sized plan"
  shows "(\<not> cf \<and> score < 70
            \<longleftrightarrow> last (print_qa score checks cf) = ''Result: NEEDS_REPLAN (score < 70)'')
       \<and> (if \<not> cf \<and> score < 70 then
             (\<exists>plan' score' checks' cf'.
                 auto_replan_stub plan checks = Inr plan'
               \<and> run_qa (save_plan now plan') = Inr (score', checks', cf')
               \<and> cmd_plan_qa now plan =
                   (print_qa score checks cf @ [''Auto replan triggered.'', ''Post-replan QA:'']
                      @ print_qa score' checks' cf',
                    Inr (save_plan now plan')))
           else cmd_plan_qa now plan = (print_qa score checks cf, Inr plan))
       \<and> occurrences ''Auto replan triggered.'' (fst (cmd_plan_qa now plan))
            = (if \<not> cf \<and> score < 70 then 1 else 0)
       \<and> length (filter is_result_line (fst (cmd_plan_qa now plan)))
            = (if \<not> cf \<and> score < 70 then 2 else 1)
       \<and> cmd_replan_qa now plan = cmd_plan_qa now plan"
proof (cases "\<not> cf \<and> score < 70")
  case True
  from auto_replan_stub_total [OF assms(2)] obtain plan' where
    plan': "auto_replan_stub plan checks = Inr plan'" by blast
  then have "fills plan plan'" by (rule fills_auto_replan_stub)
  then have "sized plan'" using assms(2) by (rule sized_fills)
  then have "sized (save_plan now plan')" by (rule sized_save_plan)
  then obtain score' checks' cf' where
    run': "run_qa (save_plan now plan') = Inr (score', checks', cf')"
    using run_qa_total by blast
  have out: "cmd_plan_qa now plan =
      (print_qa score checks cf @ [''Auto replan triggered.'', ''Post-replan QA:'']
         @ print_qa score' checks' cf',
       Inr (save_plan now plan'))"
    using True assms(1) plan' run' by (simp add: cmd_plan_qa_def Let_def)
  have disp: "last (print_qa score checks cf) = ''Result: NEEDS_REPLAN (score < 70)''"
    using True by (simp add: last_print_qa result_line_def)
  have count: "occurrences ''Auto replan triggered.'' (fst (cmd_plan_qa now plan)) = 1"
    by (simp add: out occurrences_append occurrences_Cons trigger_not_in_print_qa)
  have results: "length (filter is_result_line (fst (cmd_plan_qa now plan))) = 2"
    by (simp add: out result_lines_print_qa) (simp add: is_result_line_def)
  from True plan' run' out disp count results cmd_replan_qa_eq [of now plan]
  show ?thesis by auto
next
  case False
  have out: "cmd_plan_qa now plan = (print_qa score checks cf, Inr plan)"
    using False assms(1) by (auto simp: cmd_plan_qa_def Let_def)
  have disp: "last (print_qa score checks cf) \<noteq> ''Result: NEEDS_REPLAN (score < 70)''"
    using False by (auto simp: last_print_qa result_line_def)
  have count: "occurrences ''Auto replan triggered.'' (fst (cmd_plan_qa now plan)) = 0"
    by (simp add: out trigger_not_in_print_qa)
  have results: "length (filter is_result_line (fst (cmd_plan_qa now plan))) = 1"
    by (simp add: out result_lines_print_qa)
  from False out disp count results cmd_replan_qa_eq [of now plan]
  show ?thesis by auto
qed

text \<open>
  A document that needs a replan (score 35, no critical failure) and one with a critical
  failure (score 90).
\<close>
theorem repair_once_iff_needs_replan_witness:
  "run_qa ex_scenario = Inr (35, qa_checks ex_scenario 0 0 True, False)
   \<and> sized ex_scenario
   \<and> last (print_qa 35 (qa_checks ex_scenario 0 0 True) False)
       = ''Result: NEEDS_REPLAN (score < 70)''
   \<and> occurrences ''Auto replan triggered.'' (fst (cmd_plan_qa ''2026-11-03T00:00:00+00:00'' ex_scenario)) = 1
   \<and> length (filter is_result_line (fst (cmd_plan_qa ''2026-11-03T00:00:00+00:00'' ex_scenario))) = 2
   \<and> run_qa ex_blank_goal = Inr (90, qa_checks ex_blank_goal 2 3 True, True)
   \<and> sized ex_blank_goal
   \<and> cmd_plan_qa ''2026-11-03T00:00:00+00:00'' ex_blank_goal
       = (print_qa 90 (qa_checks ex_blank_goal 2 3 True) True, Inr ex_blank_goal)"
proof -
  have run: "run_qa ex_scenario = Inr (35, qa_checks ex_scenario 0 0 True, False)"
    by (simp add: ex_scenario_def qa_eval)
  have run': "run_qa ex_blank_goal = Inr (90, qa_checks ex_blank_goal 2 3 True, True)"
    by (simp add: ex_blank_goal_def qa_eval)
  have sized': "sized ex_blank_goal"
    by (simp add: sized_def len_fields_def has_len_def plan_get_or_def ex_blank_goal_def)
  from repair_once_iff_needs_replan [OF run sized_ex_scenario, of "''2026-11-03T00:00:00+00:00''"]
    repair_once_iff_needs_replan [OF run' sized', of "''2026-11-03T00:00:00+00:00''"]
    run run' sized_ex_scenario sized'
  show ?thesis by simp
qed

section \<open>Migration\<close>

lemma fold_setdefault:
  "fold (\<lambda>(key, default) plan. setdefault plan key default) kds p k
     = (case p k of Some v \<Rightarrow> Some v | None \<Rightarrow> map_of kds k)"
proof (induction kds arbitrary: p)
  case Nil
  then show ?case by (simp split: option.splits)
next
  case (Cons kd kds)
  obtain key d where kd: "kd = (key, d)" by (cases kd)
  have "fold (\<lambda>(key, default) plan. setdefault plan key default) (kd # kds) p k
      = (case setdefault p key d k of Some v \<Rightarrow> Some v | None \<Rightarrow> map_of kds k)"
    by (simp add: kd Cons.IH)
  also have "\<dots> = (case p k of Some v \<Rightarrow> Some v | None \<Rightarrow> map_of (kd # kds) k)"
    by (simp add: kd setdefault_def has_key_def split: option.splits)
  finally show ?case .
qed

lemma defaults_keys: "map fst (defaults now) = map fst (defaults now')"
  by (simp add: defaults_def)

lemma defaults_None_iff: "map_of (defaults now) k = None \<longleftrightarrow> map_of (defaults now') k = None"
  unfolding map_of_eq_None_iff using defaults_keys [of now now'] by (metis list.set_map)

lemma defaults_tasks: "map_of (defaults now) ''tasks'' = None"
  by (simp add: defaults_def)

lemma defaults_empty:
  assumes "map_of (defaults now) k = Some d" and "k \<noteq> ''version''" and "k \<noteq> ''updated_at''"
  shows "d = JStr [] \<or> d = JList []"
  using assms by (simp add: defaults_def split: if_splits)

lemma split_tasks_InrD:
  assumes "split_tasks p = Inr p1"
  shows "p1 ''tasks'' = p ''tasks''"
    and "k \<noteq> ''plan_tasks'' \<Longrightarrow> k \<noteq> ''execution_tasks'' \<Longrightarrow> p1 k = p k"
    and "\<not> (has_key p ''tasks'' \<and> \<not> has_key p ''plan_tasks'' \<and> \<not> has_key p ''execution_tasks'')
           \<Longrightarrow> p1 = p"
  using assms
  by (auto simp: split_tasks_def Let_def split: if_splits sum.splits)

lemma split_tasks_list:
  assumes "p ''tasks'' = Some (JList ts)" and "p ''plan_tasks'' = None"
    and "p ''execution_tasks'' = None"
  shows "split_tasks p = Inr (p(''plan_tasks'' \<mapsto> JList (take (length ts div 2) ts),
                              ''execution_tasks'' \<mapsto> JList (drop (length ts div 2) ts)))"
  using assms by (simp add: split_tasks_def has_key_def plan_get_or_def Let_def)

lemma migrate_plan_InrD:
  assumes "migrate_plan now p = Inr q"
  shows "\<exists>p1. split_tasks p = Inr p1
    \<and> (\<forall>k. q k = (if k = ''version'' then Some (JStr ''0.3.0'')
                      else if k = ''tasks'' then None
                      else case p1 k of Some v \<Rightarrow> Some v | None \<Rightarrow> map_of (defaults now) k))"
proof -
  from assms obtain p1 where p1: "split_tasks p = Inr p1"
    and q: "q = (fold (\<lambda>(key, default) plan. setdefault plan key default) (defaults now)
                   (p1(''tasks'' := None)))(''version'' \<mapsto> JStr ''0.3.0'')"
    by (auto simp: migrate_plan_def and_then_def Let_def split: sum.splits)
  have "q k = (if k = ''version'' then Some (JStr ''0.3.0'')
               else if k = ''tasks'' then None
               else case p1 k of Some v \<Rightarrow> Some v | None \<Rightarrow> map_of (defaults now) k)" for k
    unfolding q by (simp add: fold_setdefault defaults_tasks)
  with p1 show ?thesis by blast
qed

lemma migrate_plan_fixed:
  assumes "migrate_plan now p = Inr q"
  shows "migrate_plan now' q = Inr q"
proof -
  from assms obtain p1 where "split_tasks p = Inr p1" and
    q: "\<And>k. q k = (if k = ''version'' then Some (JStr ''0.3.0'')
                      else if k = ''tasks'' then None
                      else case p1 k of Some v \<Rightarrow> Some v | None \<Rightarrow> map_of (defaults now) k)"
    using migrate_plan_InrD by blast
  have no_tasks: "q ''tasks'' = None"
    by (simp add: q)
  then have split: "split_tasks q = Inr q"
    by (simp add: split_tasks_def has_key_def)
  have drop: "q(''tasks'' := None) = q"
    using no_tasks by (simp add: fun_upd_idem)
  have filled: "map_of (defaults now') k = None" if "q k = None" for k
  proof -
    from that have "k \<noteq> ''version''" by (auto simp: q)
    with that have "map_of (defaults now) k = None"
      by (cases "k = ''tasks''") (auto simp: q defaults_tasks split: option.splits)
    then show ?thesis by (simp add: defaults_None_iff [of now k now'])
  qed
  have "fold (\<lambda>(key, default) plan. setdefault plan key default) (defaults now') q k = q k" for k
    using filled [of k] by (simp add: fold_setdefault split: option.splits)
  then have fold: "fold (\<lambda>(key, default) plan. setdefault plan key default) (defaults now') q = q"
    by (rule ext)
  have version: "q(''version'' \<mapsto> JStr ''0.3.0'') = q"
    by (rule map_upd_triv) (simp add: q)
  show ?thesis
    by (simp add: migrate_plan_def and_then_def split drop fold version Let_def)
qed

lemma migrate_plan_list_total:
  assumes "p ''tasks'' = None \<or> (\<exists>ts. p ''tasks'' = Some (JList ts))"
  shows "\<exists>q. migrate_plan now p = Inr q"
proof -
  have "\<exists>p1. split_tasks p = Inr p1"
    using assms
    by (auto simp: split_tasks_def has_key_def plan_get_or_def Let_def)
  then show ?thesis
    by (auto simp: migrate_plan_def and_then_def Let_def)
qed

text \<open>
  Claim C7 (idempotence of migration). For every document, migrating the migrated document
  again, at any later time, gives the same outcome as migrating once: the same document
  when the migration returns, the same exception when it raises. It returns for every
  document without a \<open>tasks\<close> key and for every document whose \<open>tasks\<close> is a list.
\<close>
theorem migrate_plan_idempotent:
  "and_then (migrate_plan now plan) (migrate_plan now') = migrate_plan now plan
   \<and> (\<forall>plan'. migrate_plan now plan = Inr plan' \<longrightarrow> migrate_plan now' plan' = Inr plan')
   \<and> (plan ''tasks'' = None \<or> (\<exists>ts. plan ''tasks'' = Some (JList ts))
        \<longrightarrow> (\<exists>plan'. migrate_plan now plan = Inr plan'))"
proof -
  have fixed: "migrate_plan now' plan' = Inr plan'" if "migrate_plan now plan = Inr plan'" for plan'
    using that by (rule migrate_plan_fixed)
  have "and_then (migrate_plan now plan) (migrate_plan now') = migrate_plan now plan"
  proof (cases "migrate_plan now plan")
    case (Inl err)
    then show ?thesis by (simp add: and_then_def)
  next
    case (Inr plan')
    with fixed show ?thesis by (simp add: and_then_def)
  qed
  with fixed migrate_plan_list_total [of plan now] show ?thesis by blast
qed


theorem migrate_plan_idempotent_witness:
  "ex_legacy ''tasks'' = Some (JList [JStr ''t1'', JStr ''t2'', JStr ''t3''])
   \<and> \<not> isl (migrate_plan ''2026-11-03T00:00:00+00:00'' ex_legacy)
   \<and> migrate_plan ''2026-11-04T00:00:00+00:00''
         (projr (migrate_plan ''2026-11-03T00:00:00+00:00'' ex_legacy))
       = migrate_plan ''2026-11-03T00:00:00+00:00'' ex_legacy"
proof -
  have tasks: "ex_legacy ''tasks'' = Some (JList [JStr ''t1'', JStr ''t2'', JStr ''t3''])"
    by (simp add: ex_legacy_def)
  note idem = migrate_plan_idempotent
    [of "''2026-11-03T00:00:00+00:00''" ex_legacy "''2026-11-04T00:00:00+00:00''"]
  from idem tasks obtain plan' where
    plan': "migrate_plan ''2026-11-03T00:00:00+00:00'' ex_legacy = Inr plan'"
    by blast
  with idem have "migrate_plan ''2026-11-04T00:00:00+00:00'' plan' = Inr plan'"
    by blast
  with plan' tasks show ?thesis by simp
qed

text \<open>
  Claim C8, as amended (what migration changes). When the migration returns: \<open>tasks\<close> is
  gone, whether or not it was split; \<open>version\<close> is the current schema tag, whatever it was
  before; a \<open>tasks\<close> list is split at the floor of its midpoint into \<open>plan_tasks\<close> and
  \<open>execution_tasks\<close> when neither of the two exists; every other field, and the two task
  fields when no split takes place, keeps its value when it has one and otherwise gets
  its default, which is the empty string or the empty list for every field but
  \<open>version\<close> and \<open>updated_at\<close>.
\<close>
theorem migrate_plan_frame:
  assumes "migrate_plan now plan = Inr plan'"
  shows "plan' ''tasks'' = None
       \<and> plan' ''version'' = Some (JStr ''0.3.0'')
       \<and> (\<forall>ts. plan ''tasks'' = Some (JList ts) \<and> plan ''plan_tasks'' = None
                \<and> plan ''execution_tasks'' = None
             \<longrightarrow> plan' ''plan_tasks'' = Some (JList (take (length ts div 2) ts))
               \<and> plan' ''execution_tasks'' = Some (JList (drop (length ts div 2) ts)))
       \<and> (\<forall>k. k \<noteq> ''tasks'' \<and> k \<noteq> ''version''
                \<and> (k = ''plan_tasks'' \<or> k = ''execution_tasks''
                     \<longrightarrow> \<not> (has_key plan ''tasks'' \<and> \<not> has_key plan ''plan_tasks''
                            \<and> \<not> has_key plan ''execution_tasks''))
             \<longrightarrow> plan' k = (case plan k of Some v \<Rightarrow> Some v | None \<Rightarrow> map_of (defaults now) k))
       \<and> (\<forall>k d. map_of (defaults now) k = Some d \<and> k \<noteq> ''version'' \<and> k \<noteq> ''updated_at''
             \<longrightarrow> d = JStr [] \<or> d = JList [])"
proof -
  from assms obtain p1 where p1: "split_tasks plan = Inr p1" and
    q: "\<And>k. plan' k = (if k = ''version'' then Some (JStr ''0.3.0'')
                      else if k = ''tasks'' then None
                      else case p1 k of Some v \<Rightarrow> Some v | None \<Rightarrow> map_of (defaults now) k)"
    using migrate_plan_InrD by blast
  have tasks: "plan' ''tasks'' = None" and version: "plan' ''version'' = Some (JStr ''0.3.0'')"
    by (simp_all add: q)
  have split: "plan' ''plan_tasks'' = Some (JList (take (length ts div 2) ts))
      \<and> plan' ''execution_tasks'' = Some (JList (drop (length ts div 2) ts))"
    if "plan ''tasks'' = Some (JList ts) \<and> plan ''plan_tasks'' = None
        \<and> plan ''execution_tasks'' = None" for ts
  proof -
    from that split_tasks_list [of plan ts] p1
    have "p1 = plan(''plan_tasks'' \<mapsto> JList (take (length ts div 2) ts),
                    ''execution_tasks'' \<mapsto> JList (drop (length ts div 2) ts))"
      by simp
    then show ?thesis by (simp add: q)
  qed
  have frame: "plan' k = (case plan k of Some v \<Rightarrow> Some v | None \<Rightarrow> map_of (defaults now) k)"
    if k: "k \<noteq> ''tasks'' \<and> k \<noteq> ''version''
        \<and> (k = ''plan_tasks'' \<or> k = ''execution_tasks''
             \<longrightarrow> \<not> (has_key plan ''tasks'' \<and> \<not> has_key plan ''plan_tasks''
                    \<and> \<not> has_key plan ''execution_tasks''))" for k
  proof -
    have "p1 k = plan k"
    proof (cases "k = ''plan_tasks'' \<or> k = ''execution_tasks''")
      case True
      with k split_tasks_InrD(3) [OF p1] show ?thesis by simp
    next
      case False
      with split_tasks_InrD(2) [OF p1, of k] show ?thesis by simp
    qed
    with k show ?thesis by (simp add: q)
  qed
  from tasks version split frame defaults_empty [of now] show ?thesis by blast
qed

text \<open>
  The legacy document with three tasks: one plan task, two execution tasks, the goal kept,
  the constraints defaulted.
\<close>
theorem migrate_plan_frame_witness:
  "\<not> isl (migrate_plan ''2026-11-03T00:00:00+00:00'' ex_legacy)
   \<and> projr (migrate_plan ''2026-11-03T00:00:00+00:00'' ex_legacy) ''tasks'' = None
   \<and> projr (migrate_plan ''2026-11-03T00:00:00+00:00'' ex_legacy) ''plan_tasks''
       = Some (JList [JStr ''t1''])
   \<and> projr (migrate_plan ''2026-11-03T00:00:00+00:00'' ex_legacy) ''execution_tasks''
       = Some (JList [JStr ''t2'', JStr ''t3''])
   \<and> projr (migrate_plan ''2026-11-03T00:00:00+00:00'' ex_legacy) ''goal''
       = Some (JStr ''Ship the demo'')
   \<and> projr (migrate_plan ''2026-11-03T00:00:00+00:00'' ex_legacy) ''constraints''
       = Some (JList [])"
proof -
  have fields: "ex_legacy ''tasks'' = Some (JList [JStr ''t1'', JStr ''t2'', JStr ''t3''])"
    "ex_legacy ''plan_tasks'' = None" "ex_legacy ''execution_tasks'' = None"
    "ex_legacy ''goal'' = Some (JStr ''Ship the demo'')" "ex_legacy ''constraints'' = None"
    by (simp_all add: ex_legacy_def)
  from migrate_plan_list_total [of ex_legacy] fields(1) obtain plan' where
    plan': "migrate_plan ''2026-11-03T00:00:00+00:00'' ex_legacy = Inr plan'"
    by blast
  note frame = migrate_plan_frame [OF plan']
  note gone = frame [THEN conjunct1]
  note halves = frame [THEN conjunct2, THEN conjunct2, THEN conjunct1, rule_format]
  note kept = frame [THEN conjunct2, THEN conjunct2, THEN conjunct2, THEN conjunct1, rule_format]
  have "plan' ''tasks'' = None" by (rule gone)
  moreover from halves [of "[JStr ''t1'', JStr ''t2'', JStr ''t3'']"] fields(1,2,3)
  have "plan' ''plan_tasks'' = Some (JList [JStr ''t1''])"
    "plan' ''execution_tasks'' = Some (JList [JStr ''t2'', JStr ''t3''])"
    by simp_all
  moreover have "plan' ''goal'' = (case ex_legacy ''goal'' of Some v \<Rightarrow> Some v
          | None \<Rightarrow> map_of (defaults ''2026-11-03T00:00:00+00:00'') ''goal'')"
    by (rule kept) simp
  moreover have "plan' ''constraints'' = (case ex_legacy ''constraints'' of Some v \<Rightarrow> Some v
          | None \<Rightarrow> map_of (defaults ''2026-11-03T00:00:00+00:00'') ''constraints'')"
    by (rule kept) simp
  ultimately show ?thesis
    using plan' fields by (simp add: defaults_def)
qed

text \<open>
  Claim C8 as stated fails: migration alters the existing value of \<open>version\<close>, and it
  discards \<open>tasks\<close> without splitting it when \<open>plan_tasks\<close> exists.
\<close>
theorem migrate_plan_overwrites_version:
  "ex_versioned ''version'' = Some (JStr ''0.2.0'')
   \<and> ex_versioned ''tasks'' = Some (JList [JStr ''t1''])
   \<and> ex_versioned ''plan_tasks'' = Some (JList [JStr ''p1''])
   \<and> \<not> isl (migrate_plan ''2026-11-03T00:00:00+00:00'' ex_versioned)
   \<and> projr (migrate_plan ''2026-11-03T00:00:00+00:00'' ex_versioned) ''version''
       = Some (JStr ''0.3.0'')
   \<and> projr (migrate_plan ''2026-11-03T00:00:00+00:00'' ex_versioned) ''tasks'' = None
   \<and> projr (migrate_plan ''2026-11-03T00:00:00+00:00'' ex_versioned) ''plan_tasks''
       = Some (JList [JStr ''p1''])
   \<and> projr (migrate_plan ''2026-11-03T00:00:00+00:00'' ex_versioned) ''execution_tasks''
       = Some (JList [])"
proof -
  have fields: "ex_versioned ''version'' = Some (JStr ''0.2.0'')"
    "ex_versioned ''tasks'' = Some (JList [JStr ''t1''])"
    "ex_versioned ''plan_tasks'' = Some (JList [JStr ''p1''])"
    "ex_versioned ''execution_tasks'' = None"
    by (simp_all add: ex_versioned_def)
  from migrate_plan_list_total [of ex_versioned] fields(2) obtain plan' where
    plan': "migrate_plan ''2026-11-03T00:00:00+00:00'' ex_versioned = Inr plan'"
    by blast
  from migrate_plan_InrD [OF plan'] obtain p1 where p1: "split_tasks ex_versioned = Inr p1" and
    q: "\<And>k. plan' k = (if k = ''version'' then Some (JStr ''0.3.0'')
          else if k = ''tasks'' then None
          else case p1 k of Some v \<Rightarrow> Some v
               | None \<Rightarrow> map_of (defaults ''2026-11-03T00:00:00+00:00'') k)"
    by blast
  from p1 fields have "p1 = ex_versioned"
    by (simp add: split_tasks_def has_key_def)
  with q fields have "plan' ''version'' = Some (JStr ''0.3.0'')" "plan' ''tasks'' = None"
    "plan' ''plan_tasks'' = Some (JList [JStr ''p1''])"
    "plan' ''execution_tasks'' = Some (JList [])"
    by (simp_all add: defaults_def)
  with plan' fields show ?thesis by simp
qed

end
